theory Spec2Isabelle
  imports Complex_Main "HOL-Library.AList" "HOL-Library.Multiset"
begin

section \<open>JavaScript values used by the program\<close>

text \<open>
  Strings are lists of bytes (UTF-8); the Portuguese literals of the source are written
  with their bytes. A JavaScript \<open>number\<close> is modelled as a real (every finite double is
  one). The addition of the grouped view is a parameter, \<open>add\<close>: the addition of doubles
  rounds, and what is proved of the view holds for every addition. The sums of the
  server are exact in the model. An optional or nullable property is an \<open>option\<close>.
\<close>

text \<open>
  \<open>if (v)\<close> on an optional string: \<open>undefined\<close>, \<open>null\<close> and the empty string are falsy,
  every other string is truthy.
\<close>

definition truthy :: "string option \<Rightarrow> bool" where
  "truthy v = (case v of None \<Rightarrow> False | Some s \<Rightarrow> s \<noteq> [])"

text \<open>\<open>if (v) { ... v ... }\<close>: the value the true branch reads.\<close>

definition truthy_value :: "string option \<Rightarrow> string option" where
  "truthy_value v = (case v of None \<Rightarrow> None | Some s \<Rightarrow> if s = [] then None else Some s)"

text \<open>
  \<open>String.prototype.replace\<close> with a string pattern: the first occurrence is replaced
  (the replacement text used by the program holds no \<open>$\<close>).
\<close>

fun js_replace :: "string \<Rightarrow> string \<Rightarrow> string \<Rightarrow> string" where
  "js_replace pat rep [] = (if pat = [] then rep else [])"
| "js_replace pat rep (c # cs) =
     (if take (length pat) (c # cs) = pat then rep @ drop (length pat) (c # cs)
      else c # js_replace pat rep cs)"

definition digit_char :: "int \<Rightarrow> char" where
  "digit_char n = ''0123456789'' ! nat (n mod 10)"

text \<open>The decimal form of a non-negative integer, as \<open>String(n)\<close> writes it.\<close>

function decimal_digits :: "int \<Rightarrow> string" where
  "decimal_digits n =
     (if n < 10 then [digit_char n] else decimal_digits (n div 10) @ [digit_char n])"
  by pat_completeness auto
termination
  by (relation "measure nat") auto

definition pad2 :: "int \<Rightarrow> string" where
  "pad2 n = [digit_char (n div 10), digit_char n]"

definition pad4 :: "int \<Rightarrow> string" where
  "pad4 n = [digit_char (n div 1000), digit_char (n div 100), digit_char (n div 10), digit_char n]"

text \<open>Comparison of strings byte by byte, as the database compares ISO dates.\<close>

fun str_le :: "string \<Rightarrow> string \<Rightarrow> bool" where
  "str_le [] t = True"
| "str_le (a # as) [] = False"
| "str_le (a # as) (b # bs) =
     (if a = b then str_le as bs else (of_char a :: int) < of_char b)"

datatype js_error = TypeError | Undefined_first

definition is_digit :: "char \<Rightarrow> bool" where
  "is_digit c = (48 \<le> (of_char c :: int) \<and> (of_char c :: int) \<le> 57)"

definition digit_value :: "char \<Rightarrow> int" where
  "digit_value c = of_char c - 48"

definition decimal_value :: "string \<Rightarrow> int" where
  "decimal_value s = foldl (\<lambda>n c. 10 * n + digit_value c) 0 s"

text \<open>
  An array index is a property key that is the canonical decimal form of an integer
  between 0 and \<open>2^32 - 2\<close>. Such keys are enumerated first, in ascending order.
\<close>

definition array_index :: "string \<Rightarrow> int option" where
  "array_index k =
     (if k \<noteq> [] \<and> list_all is_digit k \<and> (length k = 1 \<or> hd k \<noteq> CHR ''0'')
         \<and> decimal_value k \<le> 4294967294
      then Some (decimal_value k) else None)"

text \<open>
  The names every object literal inherits from \<open>Object.prototype\<close>. Reading one of them
  on \<open>{}\<close> gives the inherited member (a function, or the prototype object for
  \<open>__proto__\<close>), which is truthy and has no \<open>push\<close>.
\<close>

definition object_prototype_keys :: "string list" where
  "object_prototype_keys =
     [''constructor'', ''__defineGetter__'', ''__defineSetter__'', ''hasOwnProperty'',
      ''__lookupGetter__'', ''__lookupSetter__'', ''isPrototypeOf'',
      ''propertyIsEnumerable'', ''toString'', ''valueOf'', ''__proto__'',
      ''toLocaleString'']"

text \<open>
  Sorting with a comparator, as a stable insertion sort: \<open>precedes y x\<close> says that the
  comparator puts \<open>y\<close> strictly before \<open>x\<close> (for \<open>Array.prototype.sort\<close>:
  \<open>cmp(y, x) < 0\<close>; a \<open>NaN\<close> result counts as 0). With a comparator that is not a
  consistent order (some date is invalid) the order JavaScript produces is
  implementation-defined; the result is a permutation of the input in every case. The
  same function orders the rows of an \<open>.order(column)\<close> query; SQL leaves the order of
  rows with equal keys open.
\<close>

fun js_insert :: "('a \<Rightarrow> 'a \<Rightarrow> bool) \<Rightarrow> 'a \<Rightarrow> 'a list \<Rightarrow> 'a list" where
  "js_insert precedes x [] = [x]"
| "js_insert precedes x (y # ys) =
     (if precedes y x then y # js_insert precedes x ys else x # y # ys)"

definition js_sort :: "('a \<Rightarrow> 'a \<Rightarrow> bool) \<Rightarrow> 'a list \<Rightarrow> 'a list" where
  "js_sort precedes xs = foldr (js_insert precedes) xs []"

definition cmp_negative :: "int option \<Rightarrow> bool" where
  "cmp_negative v = (case v of None \<Rightarrow> False | Some n \<Rightarrow> n < 0)"

section \<open>Data model (types.ts and the rows of the database)\<close>

text \<open>
  The fields of an order that the client sends and the server stores unchanged.
  \<open>notes'\<close> is the property \<open>notes\<close>.
\<close>

record order_fields =
  customer_id :: int
  service_type :: string
  description :: string
  quantity :: real
  unit_price :: real
  total_price :: real
  order_date :: string
  delivery_date :: string
  status :: string
  notes' :: "string option"

text \<open>
  A row of the table \<open>orders\<close>: the fields above, the columns the server adds
  (\<open>batch_id\<close>, \<open>user_id\<close>) and the ones the database fills in (\<open>order_id\<close> is the column
  \<open>id\<close>).
\<close>

record order_row = order_fields +
  order_id :: int
  batch_id :: "string option"
  user_id :: string
  created_at :: string

text \<open>
  \<open>Order\<close>: an element of the answer of \<open>GET /api/orders\<close>, the row with the customer's
  name and phone copied in (absent when the row has no customer).
\<close>

record Order = order_row +
  customer_name :: "string option"
  customer_phone :: "string option"

text \<open>A row of the grouped view: an \<open>Order\<close>, and for a group the two added properties.\<close>

record GroupedOrder = Order +
  is_group :: "bool option"
  batch_items :: "Order list option"

text \<open>
  The answer of \<open>GET /api/orders/:id\<close>: an \<open>Order\<close> with the data of its images and, for a
  member of a batch, the rows of the batch (the properties \<open>images\<close> and \<open>batch_items\<close>).
\<close>

record OrderDetail = Order +
  images' :: "string list"
  batch_items' :: "order_row list option"

text \<open>One element of the body of \<open>POST /api/orders\<close>; the body is one of them or an array.\<close>

record order_payload = order_fields +
  images :: "string list option"

datatype orders_body = One order_payload | Many "order_payload list"

record Stats =
  totalOrders :: "int option"
  ongoingOrders :: "int option"
  monthlyRevenue :: real
  totalCustomers :: "int option"
  pendingOrders :: "int option"

section \<open>The batch-grouped view (App.tsx, groupedOrders)\<close>

type_synonym groups = "(string \<times> Order list) list"

text \<open>
  One iteration of \<open>orders.forEach\<close>. \<open>groups\<close> is the object literal \<open>{}\<close>: its own
  properties are the association list, in creation order. \<open>groups[k]\<close> finds an own
  property first and an inherited one otherwise; on an inherited one no array is stored
  and \<open>.push\<close> is not a function.
\<close>

definition forEach_step ::
  "groups \<times> Order list \<Rightarrow> Order \<Rightarrow> js_error + groups \<times> Order list" where
  "forEach_step st order =
     (case st of (groups, singleOrders) \<Rightarrow>
        (case truthy_value (batch_id order) of
           None \<Rightarrow> Inr (groups, singleOrders @ [order])
         | Some k \<Rightarrow>
             (case map_of groups k of
                Some items \<Rightarrow> Inr (AList.update k (items @ [order]) groups, singleOrders)
              | None \<Rightarrow>
                  if k \<in> set object_prototype_keys then Inl TypeError
                  else Inr (AList.update k [order] groups, singleOrders))))"

fun forEach_orders ::
  "groups \<times> Order list \<Rightarrow> Order list \<Rightarrow> js_error + groups \<times> Order list" where
  "forEach_orders st [] = Inr st"
| "forEach_orders st (order # rest) =
     (case forEach_step st order of
        Inl e \<Rightarrow> Inl e
      | Inr st' \<Rightarrow> forEach_orders st' rest)"

text \<open>\<open>Object.entries\<close>: array-index keys in ascending order, then the others as created.\<close>

definition entries :: "groups \<Rightarrow> groups" where
  "entries g =
     sort_key (\<lambda>kv. the (array_index (fst kv))) [kv \<leftarrow> g. array_index (fst kv) \<noteq> None]
     @ [kv \<leftarrow> g. array_index (fst kv) = None]"

text \<open>
  \<open>items.reduce((sum, item) => sum + item.total_price, 0)\<close>: the prices are added to 0
  from left to right, with the addition \<open>add\<close> of JavaScript numbers.
\<close>

definition reduce_total :: "(real \<Rightarrow> real \<Rightarrow> real) \<Rightarrow> Order list \<Rightarrow> real" where
  "reduce_total add items = foldl (\<lambda>sum item. add sum (total_price item)) 0 items"

text \<open>
  The row of one group. \<open>items[0]\<close> of an empty array is \<open>undefined\<close> and the object
  spread from it has none of the fields of an order: that case is reported as
  \<open>Undefined_first\<close>. It does not arise: a group is created with its first member.
\<close>

definition process_group ::
  "(real \<Rightarrow> real \<Rightarrow> real) \<Rightarrow> string \<times> Order list \<Rightarrow> js_error + GroupedOrder" where
  "process_group add entry =
     (case entry of (batchId, items) \<Rightarrow>
        (case items of
           [] \<Rightarrow> Inl Undefined_first
         | first # _ \<Rightarrow>
             Inr ((Order.extend first (GroupedOrder.fields (Some True) (Some items)))
                   \<lparr>service_type := ''DIVERSOS'', total_price := reduce_total add items\<rparr>)))"

fun process_groups ::
  "(real \<Rightarrow> real \<Rightarrow> real) \<Rightarrow> groups \<Rightarrow> js_error + GroupedOrder list" where
  "process_groups add [] = Inr []"
| "process_groups add (entry # rest) =
     (case process_group add entry of
        Inl e \<Rightarrow> Inl e
      | Inr row \<Rightarrow>
          (case process_groups add rest of
             Inl e \<Rightarrow> Inl e
           | Inr rows \<Rightarrow> Inr (row # rows)))"

definition single_row :: "Order \<Rightarrow> GroupedOrder" where
  "single_row order = Order.extend order (GroupedOrder.fields None None)"

text \<open>
  The comparator \<open>new Date(b.order_date).getTime() - new Date(a.order_date).getTime()\<close>.
  \<open>getTime\<close> is the runtime's date parser: \<open>None\<close> is \<open>NaN\<close> (an invalid date).
\<close>

definition order_cmp ::
  "(string \<Rightarrow> int option) \<Rightarrow> GroupedOrder \<Rightarrow> GroupedOrder \<Rightarrow> int option" where
  "order_cmp getTime a b =
     (case getTime (order_date b) of
        None \<Rightarrow> None
      | Some tb \<Rightarrow> (case getTime (order_date a) of None \<Rightarrow> None | Some ta \<Rightarrow> Some (tb - ta)))"

definition groupedOrders ::
  "(real \<Rightarrow> real \<Rightarrow> real) \<Rightarrow> (string \<Rightarrow> int option) \<Rightarrow> Order list
     \<Rightarrow> js_error + GroupedOrder list" where
  "groupedOrders add getTime orders =
     (case forEach_orders ([], []) orders of
        Inl e \<Rightarrow> Inl e
      | Inr (groups, singleOrders) \<Rightarrow>
          (case process_groups add (entries groups) of
             Inl e \<Rightarrow> Inl e
           | Inr processedGroups \<Rightarrow>
               Inr (js_sort (\<lambda>y x. cmp_negative (order_cmp getTime y x))
                      (map single_row singleOrders @ processedGroups))))"

section \<open>The server's environment\<close>

text \<open>A calendar date: year, month (1 to 12), day of the month.\<close>

type_synonym civil = "int \<times> int \<times> int"

definition leap_year :: "int \<Rightarrow> bool" where
  "leap_year y = (y mod 400 = 0 \<or> (y mod 4 = 0 \<and> y mod 100 \<noteq> 0))"

definition days_in_month :: "int \<Rightarrow> int \<Rightarrow> int" where
  "days_in_month y m =
     (if m = 2 then (if leap_year y then 29 else 28)
      else if m = 4 \<or> m = 6 \<or> m = 9 \<or> m = 11 then 30 else 31)"

definition prev_day :: "civil \<Rightarrow> civil" where
  "prev_day date =
     (case date of (y, m, d) \<Rightarrow>
        if 1 < d then (y, m, d - 1)
        else if 1 < m then (y, m - 1, days_in_month y (m - 1))
        else (y - 1, 12, 31))"

definition next_day :: "civil \<Rightarrow> civil" where
  "next_day date =
     (case date of (y, m, d) \<Rightarrow>
        if d < days_in_month y m then (y, m, d + 1)
        else if m < 12 then (y, m + 1, 1)
        else (y + 1, 1, 1))"

text \<open>
  The instant \<open>new Date()\<close> reads: the date and the minute of the day in UTC, and the
  offset of the server's local time zone in minutes (local time minus UTC, between
  \<open>-1440\<close> and \<open>1440\<close>, taken as constant over the dates a request computes).
\<close>

record clock =
  utc_date :: civil
  utc_minute :: int
  tz_offset :: int

text \<open>\<open>getFullYear\<close>, \<open>getMonth\<close>, \<open>getDate\<close> read the local date.\<close>

definition local_date :: "clock \<Rightarrow> civil" where
  "local_date c =
     (let t = utc_minute c + tz_offset c in
      if t < 0 then prev_day (utc_date c)
      else if 1440 \<le> t then next_day (utc_date c)
      else utc_date c)"

text \<open>
  \<open>new Date(y, m, d)\<close> is midnight of a local date; \<open>toISOString\<close> writes it in UTC, which
  is the day before when local time is ahead of UTC.
\<close>

definition utc_date_of_local_midnight :: "int \<Rightarrow> civil \<Rightarrow> civil" where
  "utc_date_of_local_midnight tz date = (if 0 < tz then prev_day date else date)"

text \<open>\<open>toISOString().slice(0, 10)\<close> and \<open>toISOString().slice(0, 7)\<close>, for years 0 to 9999.\<close>

definition iso_date :: "civil \<Rightarrow> string" where
  "iso_date date = (case date of (y, m, d) \<Rightarrow> pad4 y @ ''-'' @ pad2 m @ ''-'' @ pad2 d)"

definition iso_month :: "civil \<Rightarrow> string" where
  "iso_month date = (case date of (y, m, d) \<Rightarrow> pad4 y @ ''-'' @ pad2 m)"

text \<open>\<open>new Date(year, month + 1, 0)\<close>: the last day of a month.\<close>

definition last_day_of_month :: "int \<Rightarrow> int \<Rightarrow> civil" where
  "last_day_of_month y m = (y, m, days_in_month y m)"

text \<open>
  \<open>d.setMonth(d.getMonth() - i)\<close> on a local date: the month moves back \<open>i\<close> months and the
  day of the month is kept; a day the target month does not have runs over into the
  next month.
\<close>

definition setMonth_back :: "civil \<Rightarrow> int \<Rightarrow> civil" where
  "setMonth_back date i =
     (case date of (y, m, d) \<Rightarrow>
        let m0 = (m - 1) - i;
            y' = y + m0 div 12;
            m' = m0 mod 12 + 1
        in if d \<le> days_in_month y' m' then (y', m', d)
           else if m' < 12 then (y', m' + 1, d - days_in_month y' m')
           else (y' + 1, 1, d - days_in_month y' m'))"

text \<open>An error answered by the database client: its code and its message.\<close>

datatype db_error = Db_error string string

definition error_message :: "db_error \<Rightarrow> string" where
  "error_message e = (case e of Db_error code msg \<Rightarrow> msg)"

definition PGRST116 :: db_error where
  "PGRST116 = Db_error ''PGRST116'' ''JSON object requested, multiple (or no) rows returned''"

definition invalid_input :: db_error where
  "invalid_input = Db_error ''22P02'' ''invalid input syntax for type bigint''"

record customer_fields =
  name :: string
  phone :: string
  email :: "string option"
  company :: "string option"

record customer_row = customer_fields +
  cust_id :: int
  cust_user_id :: string
  cust_created_at :: string

record image_row =
  image_order_id :: int
  image_data :: string

text \<open>
  What a request reads from outside the program: the identity provider
  (\<open>auth.getUser\<close>: the user of a token, if the token is valid), \<open>Date.now()\<close>, the text
  \<open>Math.random().toString(36).substr(2, 9)\<close>, the clock, and the database's own
  decisions: whether it refuses a row to insert (its schema and constraints are not
  part of the repository), the order of names in its collation, the time stamp it
  gives a new row. \<open>month_short\<close> is the month name of \<open>toLocaleString('pt-BR')\<close>.
\<close>

record env =
  auth_getUser :: "string \<Rightarrow> string option"
  date_now :: int
  random_suffix :: string
  now :: clock
  db_refuses_customer :: "customer_fields \<Rightarrow> db_error option"
  db_refuses_order :: "order_fields \<Rightarrow> db_error option"
  db_refuses_images :: "image_row list \<Rightarrow> db_error option"
  name_precedes :: "string \<Rightarrow> string \<Rightarrow> bool"
  db_timestamp :: string
  month_short :: "int \<Rightarrow> string"


section \<open>The database, as the authenticated client sees it\<close>

text \<open>
  Modelled from the spec: the hosted database stores the rows and enforces per-user row
  visibility. The state below is the part of the database the request's user can see
  and change; \<open>calls\<close> records every query the request sends (table and verb). A query
  fails in three ways only: \<open>.single()\<close> and \<open>.maybeSingle()\<close> when the number of rows
  is wrong, a filter on \<open>id\<close> whose value is not a number, and an insert that the
  database refuses.
\<close>

datatype verb = SELECT | INSERT | UPDATE | DELETE

record db =
  customers :: "customer_row list"
  orders :: "order_row list"
  order_images :: "image_row list"
  next_customer_id :: int
  next_order_id :: int
  calls :: "(string \<times> verb) list"

definition logged :: "string \<Rightarrow> verb \<Rightarrow> db \<Rightarrow> db" where
  "logged table v d = d\<lparr>calls := calls d @ [(table, v)]\<rparr>"

text \<open>The route parameter \<open>:id\<close>: a number, or a text that is not one.\<close>

datatype route_id = Numeric int | Not_numeric

text \<open>\<open>from('customers').select('*').order('name', { ascending: true })\<close>\<close>

definition customers_select_all :: "env \<Rightarrow> db \<Rightarrow> (db_error + customer_row list) \<times> db" where
  "customers_select_all env d =
     (Inr (js_sort (\<lambda>y x. name_precedes env (name y) (name x)) (customers d)),
      logged ''customers'' SELECT d)"

text \<open>\<open>from('customers').select('id').eq('name', name).eq('phone', phone).maybeSingle()\<close>\<close>

definition customers_select_existing ::
  "string \<Rightarrow> string \<Rightarrow> db \<Rightarrow> (db_error + int option) \<times> db" where
  "customers_select_existing n p d =
     ((case [c \<leftarrow> customers d. name c = n \<and> phone c = p] of
         [] \<Rightarrow> Inr None
       | [c] \<Rightarrow> Inr (Some (cust_id c))
       | c # c' # cs \<Rightarrow> Inl PGRST116),
      logged ''customers'' SELECT d)"

text \<open>\<open>from('customers').insert({..., user_id}).select('id').single()\<close>\<close>

definition customers_insert ::
  "env \<Rightarrow> customer_fields \<Rightarrow> string \<Rightarrow> db \<Rightarrow> (db_error + int) \<times> db" where
  "customers_insert env vals user d =
     (case db_refuses_customer env vals of
        Some e \<Rightarrow> (Inl e, logged ''customers'' INSERT d)
      | None \<Rightarrow>
          (Inr (next_customer_id d),
           logged ''customers'' INSERT
             (d\<lparr>customers := customers d @
                   [customer_fields.extend vals
                      (customer_row.fields (next_customer_id d) user (db_timestamp env))],
                 next_customer_id := next_customer_id d + 1\<rparr>)))"

text \<open>\<open>from('customers').delete().eq('id', id)\<close>\<close>

definition customers_delete :: "route_id \<Rightarrow> db \<Rightarrow> (db_error + unit) \<times> db" where
  "customers_delete rid d =
     (case rid of
        Not_numeric \<Rightarrow> (Inl invalid_input, logged ''customers'' DELETE d)
      | Numeric i \<Rightarrow>
          (Inr (),
           logged ''customers'' DELETE (d\<lparr>customers := [c \<leftarrow> customers d. cust_id c \<noteq> i]\<rparr>)))"

text \<open>The embedded \<open>customers(name, phone)\<close> of an order: the customer it refers to.\<close>

definition embedded_customer :: "db \<Rightarrow> order_row \<Rightarrow> customer_row option" where
  "embedded_customer d r = find (\<lambda>c. cust_id c = customer_id r) (customers d)"

definition with_customer :: "db \<Rightarrow> order_row \<Rightarrow> Order" where
  "with_customer d r =
     order_row.extend r
       (Order.fields (map_option name (embedded_customer d r))
                     (map_option phone (embedded_customer d r)))"

text \<open>
  \<open>from('orders').select('*, customers(name, phone)').order('order_date', { ascending: false })\<close>,
  each row already with \<open>customer_name\<close> and \<open>customer_phone\<close>.
\<close>

definition orders_select_all :: "db \<Rightarrow> (db_error + Order list) \<times> db" where
  "orders_select_all d =
     (Inr (map (with_customer d)
             (js_sort (\<lambda>y x. \<not> str_le (order_date y) (order_date x)) (orders d))),
      logged ''orders'' SELECT d)"

definition rows_with_id :: "route_id \<Rightarrow> db \<Rightarrow> db_error + order_row list" where
  "rows_with_id rid d =
     (case rid of
        Not_numeric \<Rightarrow> Inl invalid_input
      | Numeric i \<Rightarrow> Inr [r \<leftarrow> orders d. order_id r = i])"

text \<open>\<open>.single()\<close>: exactly one row, or the error PGRST116.\<close>

definition single :: "db_error + 'a list \<Rightarrow> db_error + 'a" where
  "single res =
     (case res of
        Inl e \<Rightarrow> Inl e
      | Inr rows \<Rightarrow>
          (case rows of
             [] \<Rightarrow> Inl PGRST116
           | [r] \<Rightarrow> Inr r
           | r # r' # rs \<Rightarrow> Inl PGRST116))"

text \<open>
  \<open>from('orders').select('*, customers(name, phone), order_images(image_data)')
  .eq('id', id).single()\<close>: the row, its customer and the data of its images.
\<close>

definition orders_select_one ::
  "route_id \<Rightarrow> db \<Rightarrow> (db_error + Order \<times> string list) \<times> db" where
  "orders_select_one rid d =
     ((case single (rows_with_id rid d) of
         Inl e \<Rightarrow> Inl e
       | Inr r \<Rightarrow>
           Inr (with_customer d r,
                map image_data [img \<leftarrow> order_images d. image_order_id img = order_id r])),
      logged ''orders'' SELECT d)"

text \<open>\<open>from('orders').select('*').eq('batch_id', b)\<close>\<close>

definition orders_select_batch :: "string \<Rightarrow> db \<Rightarrow> (db_error + order_row list) \<times> db" where
  "orders_select_batch b d =
     (Inr [r \<leftarrow> orders d. batch_id r = Some b], logged ''orders'' SELECT d)"

text \<open>\<open>from('orders').select('batch_id').eq('id', id).single()\<close>\<close>

definition orders_select_batch_id ::
  "route_id \<Rightarrow> db \<Rightarrow> (db_error + string option) \<times> db" where
  "orders_select_batch_id rid d =
     ((case single (rows_with_id rid d) of Inl e \<Rightarrow> Inl e | Inr r \<Rightarrow> Inr (batch_id r)),
      logged ''orders'' SELECT d)"

text \<open>\<open>from('orders').insert({..., batch_id, user_id}).select('id').single()\<close>\<close>

definition new_order_row :: "env \<Rightarrow> order_fields \<Rightarrow> string option \<Rightarrow> string \<Rightarrow> int \<Rightarrow> order_row" where
  "new_order_row env vals batchId user i =
     order_fields.extend vals (order_row.fields i batchId user (db_timestamp env))"

definition orders_insert ::
  "env \<Rightarrow> order_fields \<Rightarrow> string option \<Rightarrow> string \<Rightarrow> db \<Rightarrow> (db_error + int) \<times> db" where
  "orders_insert env vals batchId user d =
     (case db_refuses_order env vals of
        Some e \<Rightarrow> (Inl e, logged ''orders'' INSERT d)
      | None \<Rightarrow>
          (Inr (next_order_id d),
           logged ''orders'' INSERT
             (d\<lparr>orders := orders d @ [new_order_row env vals batchId user (next_order_id d)],
                 next_order_id := next_order_id d + 1\<rparr>)))"

text \<open>\<open>from('order_images').insert(imageRows)\<close>\<close>

definition order_images_insert :: "env \<Rightarrow> image_row list \<Rightarrow> db \<Rightarrow> (db_error + unit) \<times> db" where
  "order_images_insert env imageRows d =
     (case db_refuses_images env imageRows of
        Some e \<Rightarrow> (Inl e, logged ''order_images'' INSERT d)
      | None \<Rightarrow>
          (Inr (), logged ''order_images'' INSERT (d\<lparr>order_images := order_images d @ imageRows\<rparr>)))"

text \<open>\<open>from('orders').update({ status }).eq('batch_id', b)\<close> and \<open>.eq('id', id)\<close>\<close>

definition orders_update_status_batch ::
  "string \<Rightarrow> string \<Rightarrow> db \<Rightarrow> (db_error + unit) \<times> db" where
  "orders_update_status_batch s b d =
     (Inr (),
      logged ''orders'' UPDATE
        (d\<lparr>orders := map (\<lambda>r. if batch_id r = Some b then r\<lparr>status := s\<rparr> else r) (orders d)\<rparr>))"

definition orders_update_status_id ::
  "string \<Rightarrow> route_id \<Rightarrow> db \<Rightarrow> (db_error + unit) \<times> db" where
  "orders_update_status_id s rid d =
     (case rid of
        Not_numeric \<Rightarrow> (Inl invalid_input, logged ''orders'' UPDATE d)
      | Numeric i \<Rightarrow>
          (Inr (),
           logged ''orders'' UPDATE
             (d\<lparr>orders := map (\<lambda>r. if order_id r = i then r\<lparr>status := s\<rparr> else r) (orders d)\<rparr>)))"

text \<open>\<open>from('orders').delete().eq('batch_id', b)\<close> and \<open>.eq('id', id)\<close>\<close>

definition orders_delete_batch :: "string \<Rightarrow> db \<Rightarrow> (db_error + unit) \<times> db" where
  "orders_delete_batch b d =
     (Inr (), logged ''orders'' DELETE (d\<lparr>orders := [r \<leftarrow> orders d. batch_id r \<noteq> Some b]\<rparr>))"

definition orders_delete_id :: "route_id \<Rightarrow> db \<Rightarrow> (db_error + unit) \<times> db" where
  "orders_delete_id rid d =
     (case rid of
        Not_numeric \<Rightarrow> (Inl invalid_input, logged ''orders'' DELETE d)
      | Numeric i \<Rightarrow>
          (Inr (), logged ''orders'' DELETE (d\<lparr>orders := [r \<leftarrow> orders d. order_id r \<noteq> i]\<rparr>)))"

text \<open>
  \<open>select('*', { count: 'exact', head: true })\<close>, with \<open>.in('status', ...)\<close> or
  \<open>.eq('status', ...)\<close> as the list of statuses counted (\<open>None\<close>: no filter).
\<close>

definition orders_count :: "string list option \<Rightarrow> db \<Rightarrow> (db_error + int) \<times> db" where
  "orders_count statuses d =
     (Inr (case statuses of
             None \<Rightarrow> int (length (orders d))
           | Some ss \<Rightarrow> int (length [r \<leftarrow> orders d. status r \<in> set ss])),
      logged ''orders'' SELECT d)"

definition customers_count :: "db \<Rightarrow> (db_error + int) \<times> db" where
  "customers_count d = (Inr (int (length (customers d))), logged ''customers'' SELECT d)"

text \<open>
  \<open>from('orders').select('total_price').gte('order_date', lo).lte('order_date', hi)\<close>
\<close>

definition orders_select_prices ::
  "string \<Rightarrow> string \<Rightarrow> db \<Rightarrow> (db_error + real list) \<times> db" where
  "orders_select_prices lo hi d =
     (Inr (map total_price
             [r \<leftarrow> orders d. str_le lo (order_date r) \<and> str_le (order_date r) hi]),
      logged ''orders'' SELECT d)"


section \<open>The API handlers (server)\<close>

datatype json_body =
    Error_body string
  | Customers_body "customer_row list"
  | Id_body int
  | Success_body
  | Orders_body "Order list"
  | Order_body OrderDetail
  | Ids_body "int list"
  | Stats_body Stats
  | Trends_body "(string \<times> real) list"
  | Distribution_body "(string \<times> int \<times> string) list"

record response =
  http_status :: nat
  body :: json_body

text \<open>\<open>res.json(b)\<close> answers with status 200; \<open>res.status(n).json(b)\<close> with status \<open>n\<close>.\<close>

definition json :: "json_body \<Rightarrow> response" where
  "json b = \<lparr>http_status = 200, body = b\<rparr>"

definition status_json :: "nat \<Rightarrow> json_body \<Rightarrow> response" where
  "status_json n b = \<lparr>http_status = n, body = b\<rparr>"

definition msg_unauthorized :: string where
  "msg_unauthorized = ''N'' @ [CHR 0xC3, CHR 0xA3] @ ''o autorizado''"

definition msg_duplicate_customer :: string where
  "msg_duplicate_customer =
     ''Cliente j'' @ [CHR 0xC3, CHR 0xA1] @ '' cadastrado com este nome e telefone.''"

definition msg_order_not_found :: string where
  "msg_order_not_found = ''Pedido n'' @ [CHR 0xC3, CHR 0xA3] @ ''o encontrado''"

definition msg_save_failed :: string where
  "msg_save_failed = ''Erro ao salvar pedidos.''"

definition Orcamento :: string where
  "Orcamento = ''Or'' @ [CHR 0xC3, CHR 0xA7] @ ''amento''"

definition Em_Producao :: string where
  "Em_Producao = ''Em Produ'' @ [CHR 0xC3, CHR 0xA7, CHR 0xC3, CHR 0xA3] @ ''o''"

definition Finalizado :: string where
  "Finalizado = ''Finalizado''"

definition Entregue :: string where
  "Entregue = ''Entregue''"

definition Arquivado :: string where
  "Arquivado = ''Arquivado''"

definition unauthorized :: response where
  "unauthorized = status_json 401 (Error_body msg_unauthorized)"

text \<open>
  \<open>getAuthClient\<close>: the token is the \<open>Authorization\<close> header with the first
  \<open>'Bearer '\<close> removed; no header, an empty token or a token the identity provider does
  not know give \<open>null\<close>. The result is the user's id.
\<close>

definition getAuthClient :: "env \<Rightarrow> string option \<Rightarrow> string option" where
  "getAuthClient env authorization =
     (let token = map_option (js_replace ''Bearer '' '''') authorization in
      case token of
        None \<Rightarrow> None
      | Some t \<Rightarrow> if t = [] then None else auth_getUser env t)"

subsection \<open>Customers\<close>

definition get_customers :: "env \<Rightarrow> string option \<Rightarrow> db \<Rightarrow> response \<times> db" where
  "get_customers env authorization d =
     (case getAuthClient env authorization of
        None \<Rightarrow> (unauthorized, d)
      | Some user \<Rightarrow>
          (case customers_select_all env d of
             (Inl e, d1) \<Rightarrow> (status_json 500 (Error_body (error_message e)), d1)
           | (Inr data, d1) \<Rightarrow> (json (Customers_body data), d1)))"

text \<open>
  \<open>POST /api/customers\<close>. Only \<open>data\<close> of the existence check is read: its error (more
  than one row) leaves \<open>existing\<close> null like no row does.
\<close>

definition post_customers ::
  "env \<Rightarrow> string option \<Rightarrow> customer_fields \<Rightarrow> db \<Rightarrow> response \<times> db" where
  "post_customers env authorization req_body d =
     (case getAuthClient env authorization of
        None \<Rightarrow> (unauthorized, d)
      | Some user \<Rightarrow>
          (case customers_select_existing (name req_body) (phone req_body) d of
             (Inr (Some existing), d1) \<Rightarrow>
               (status_json 400 (Error_body msg_duplicate_customer), d1)
           | (_, d1) \<Rightarrow>
               (case customers_insert env req_body user d1 of
                  (Inl e, d2) \<Rightarrow> (status_json 500 (Error_body (error_message e)), d2)
                | (Inr new_id, d2) \<Rightarrow> (json (Id_body new_id), d2))))"

definition delete_customer :: "env \<Rightarrow> string option \<Rightarrow> route_id \<Rightarrow> db \<Rightarrow> response \<times> db" where
  "delete_customer env authorization rid d =
     (case getAuthClient env authorization of
        None \<Rightarrow> (unauthorized, d)
      | Some user \<Rightarrow>
          (case customers_delete rid d of
             (Inl e, d1) \<Rightarrow> (status_json 500 (Error_body (error_message e)), d1)
           | (Inr u, d1) \<Rightarrow> (json Success_body, d1)))"

subsection \<open>Orders\<close>

definition get_orders :: "env \<Rightarrow> string option \<Rightarrow> db \<Rightarrow> response \<times> db" where
  "get_orders env authorization d =
     (case getAuthClient env authorization of
        None \<Rightarrow> (unauthorized, d)
      | Some user \<Rightarrow>
          (case orders_select_all d of
             (Inl e, d1) \<Rightarrow> (status_json 500 (Error_body (error_message e)), d1)
           | (Inr data, d1) \<Rightarrow> (json (Orders_body data), d1)))"

text \<open>
  \<open>GET /api/orders/:id\<close>: any error of the lookup is answered 404. The members of the
  batch are fetched when the order's \<open>batch_id\<close> is truthy.
\<close>

definition get_order :: "env \<Rightarrow> string option \<Rightarrow> route_id \<Rightarrow> db \<Rightarrow> response \<times> db" where
  "get_order env authorization rid d =
     (case getAuthClient env authorization of
        None \<Rightarrow> (unauthorized, d)
      | Some user \<Rightarrow>
          (case orders_select_one rid d of
             (Inl e, d1) \<Rightarrow> (status_json 404 (Error_body msg_order_not_found), d1)
           | (Inr (orderData, imgs), d1) \<Rightarrow>
               (case truthy_value (batch_id orderData) of
                  None \<Rightarrow>
                    (json (Order_body (Order.extend orderData (OrderDetail.fields imgs None))),
                     d1)
                | Some b \<Rightarrow>
                    (case orders_select_batch b d1 of
                       (batchData, d2) \<Rightarrow>
                         (json (Order_body
                            (Order.extend orderData
                               (OrderDetail.fields imgs
                                  (case batchData of Inl e \<Rightarrow> None | Inr rows \<Rightarrow> Some rows)))),
                          d2)))))"

text \<open>
  \<open>if (images && Array.isArray(images) && images.length > 0)\<close>: the images of a payload
  are inserted as rows of \<open>order_images\<close> that refer to the new order. The outcome of
  that insert is not looked at.
\<close>

definition insert_images :: "env \<Rightarrow> int \<Rightarrow> order_payload \<Rightarrow> db \<Rightarrow> db" where
  "insert_images env orderId data d =
     (case images data of
        Some (img # others) \<Rightarrow>
          snd (order_images_insert env
                 (map (\<lambda>i. \<lparr>image_order_id = orderId, image_data = i\<rparr>) (img # others)) d)
      | _ \<Rightarrow> d)"

text \<open>
  The loop of \<open>POST /api/orders\<close>: one insert per payload; the first refused insert is
  thrown, caught, and answered 500 with a fixed message. The rows inserted before it
  stay.
\<close>

fun insert_orders ::
  "env \<Rightarrow> string \<Rightarrow> string option \<Rightarrow> int list \<Rightarrow> order_payload list \<Rightarrow> db \<Rightarrow> response \<times> db" where
  "insert_orders env user batchId orderIds [] d = (json (Ids_body orderIds), d)"
| "insert_orders env user batchId orderIds (data # rest) d =
     (case orders_insert env (order_fields.truncate data) batchId user d of
        (Inl orderError, d1) \<Rightarrow> (status_json 500 (Error_body msg_save_failed), d1)
      | (Inr orderId, d1) \<Rightarrow>
          insert_orders env user batchId (orderIds @ [orderId]) rest
            (insert_images env orderId data d1))"

text \<open>
  \<open>batch_${Date.now()}_${Math.random().toString(36).substr(2, 9)}\<close>
\<close>

definition new_batch_id :: "env \<Rightarrow> string" where
  "new_batch_id env = ''batch_'' @ decimal_digits (date_now env) @ ''_'' @ random_suffix env"

text \<open>\<open>Array.isArray(req.body) ? req.body : [req.body]\<close>\<close>

definition ordersData :: "orders_body \<Rightarrow> order_payload list" where
  "ordersData req_body = (case req_body of Many ps \<Rightarrow> ps | One p \<Rightarrow> [p])"

definition post_orders :: "env \<Rightarrow> string option \<Rightarrow> orders_body \<Rightarrow> db \<Rightarrow> response \<times> db" where
  "post_orders env authorization req_body d =
     (case getAuthClient env authorization of
        None \<Rightarrow> (unauthorized, d)
      | Some user \<Rightarrow>
          (let batchId = (if 1 < length (ordersData req_body) then Some (new_batch_id env)
                          else None)
           in insert_orders env user batchId [] (ordersData req_body) d))"

text \<open>
  \<open>PATCH /api/orders/:id/status\<close>. \<open>order?.batch_id\<close> is undefined when the lookup gave
  no row; neither the lookup's nor the update's error is looked at.
\<close>

definition looked_up_batch_id :: "db_error + string option \<Rightarrow> string option" where
  "looked_up_batch_id res = (case res of Inl e \<Rightarrow> None | Inr b \<Rightarrow> truthy_value b)"

definition patch_order_status ::
  "env \<Rightarrow> string option \<Rightarrow> route_id \<Rightarrow> string \<Rightarrow> db \<Rightarrow> response \<times> db" where
  "patch_order_status env authorization rid new_status d =
     (case getAuthClient env authorization of
        None \<Rightarrow> (unauthorized, d)
      | Some user \<Rightarrow>
          (case orders_select_batch_id rid d of
             (order, d1) \<Rightarrow>
               (case looked_up_batch_id order of
                  Some b \<Rightarrow> (json Success_body, snd (orders_update_status_batch new_status b d1))
                | None \<Rightarrow> (json Success_body, snd (orders_update_status_id new_status rid d1)))))"

definition delete_order :: "env \<Rightarrow> string option \<Rightarrow> route_id \<Rightarrow> db \<Rightarrow> response \<times> db" where
  "delete_order env authorization rid d =
     (case getAuthClient env authorization of
        None \<Rightarrow> (unauthorized, d)
      | Some user \<Rightarrow>
          (case orders_select_batch_id rid d of
             (order, d1) \<Rightarrow>
               (case looked_up_batch_id order of
                  Some b \<Rightarrow> (json Success_body, snd (orders_delete_batch b d1))
                | None \<Rightarrow> (json Success_body, snd (orders_delete_id rid d1)))))"

subsection \<open>Statistics and billing\<close>

text \<open>A count is \<open>null\<close> when its query failed.\<close>

definition count_of :: "db_error + int \<Rightarrow> int option" where
  "count_of res = (case res of Inl e \<Rightarrow> None | Inr n \<Rightarrow> Some n)"

text \<open>
  \<open>data?.reduce((sum, o) => sum + parseFloat(o.total_price), 0) || 0\<close>: the sum of the
  prices, and 0 when the query failed.
\<close>

definition revenue_of :: "db_error + real list \<Rightarrow> real" where
  "revenue_of res = (case res of Inl e \<Rightarrow> 0 | Inr prices \<Rightarrow> foldl (\<lambda>sum p. sum + p) 0 prices)"

text \<open>
  The month window of \<open>GET /api/stats\<close>: \<open>startOfMonth\<close> is the first day of the month of
  the UTC date (\<open>toISOString().slice(0, 7)\<close>), \<open>endOfMonth\<close> is
  \<open>new Date(getFullYear(), getMonth() + 1, 0).toISOString().slice(0, 10)\<close>, the last day
  of the month of the local date, written in UTC.
\<close>

definition startOfMonth :: "clock \<Rightarrow> string" where
  "startOfMonth c = iso_month (utc_date c) @ ''-01''"

definition endOfMonth :: "clock \<Rightarrow> string" where
  "endOfMonth c =
     (case local_date c of (y, m, d) \<Rightarrow>
        iso_date (utc_date_of_local_midnight (tz_offset c) (last_day_of_month y m)))"

definition get_stats :: "env \<Rightarrow> string option \<Rightarrow> db \<Rightarrow> response \<times> db" where
  "get_stats env authorization d =
     (case getAuthClient env authorization of
        None \<Rightarrow> (unauthorized, d)
      | Some user \<Rightarrow>
          (case orders_count None d of
             (n_total, d1) \<Rightarrow>
          (case orders_count (Some [Orcamento, Em_Producao]) d1 of
             (n_ongoing, d2) \<Rightarrow>
          (case customers_count d2 of
             (n_customers, d3) \<Rightarrow>
          (case orders_count (Some [Orcamento]) d3 of
             (n_pending, d4) \<Rightarrow>
          (case orders_select_prices (startOfMonth (now env)) (endOfMonth (now env)) d4 of
             (revenueData, d5) \<Rightarrow>
               (json (Stats_body
                  \<lparr>totalOrders = count_of n_total,
                   ongoingOrders = count_of n_ongoing,
                   monthlyRevenue = revenue_of revenueData,
                   totalCustomers = count_of n_customers,
                   pendingOrders = count_of n_pending\<rparr>),
                d5)))))))"

text \<open>
  One round of the loop of \<open>GET /api/billing/trends\<close>, for \<open>i\<close> months back: the window
  runs from the first to the last day of the month \<open>setMonth\<close> arrives at, both written
  in UTC.
\<close>

definition trend_month :: "env \<Rightarrow> int \<Rightarrow> db \<Rightarrow> (string \<times> real) \<times> db" where
  "trend_month env i d =
     (case setMonth_back (local_date (now env)) i of (y, m, day) \<Rightarrow>
        (case orders_select_prices
                (iso_date (utc_date_of_local_midnight (tz_offset (now env)) (y, m, 1)))
                (iso_date (utc_date_of_local_midnight (tz_offset (now env))
                             (last_day_of_month y m)))
                d of
           (data, d1) \<Rightarrow> ((month_short env m, revenue_of data), d1)))"

fun trend_months :: "env \<Rightarrow> int list \<Rightarrow> db \<Rightarrow> (string \<times> real) list \<times> db" where
  "trend_months env [] d = ([], d)"
| "trend_months env (i # rest) d =
     (case trend_month env i d of
        (t, d1) \<Rightarrow> (case trend_months env rest d1 of (ts, d2) \<Rightarrow> (t # ts, d2)))"

definition get_billing_trends :: "env \<Rightarrow> string option \<Rightarrow> db \<Rightarrow> response \<times> db" where
  "get_billing_trends env authorization d =
     (case getAuthClient env authorization of
        None \<Rightarrow> (unauthorized, d)
      | Some user \<Rightarrow>
          (case trend_months env [5, 4, 3, 2, 1, 0] d of
             (trends, d1) \<Rightarrow> (json (Trends_body trends), d1)))"

text \<open>\<open>completed || 0\<close>: a count that is null or 0 is written 0.\<close>

definition or_zero :: "int option \<Rightarrow> int" where
  "or_zero c = (case c of None \<Rightarrow> 0 | Some n \<Rightarrow> n)"

definition get_billing_distribution :: "env \<Rightarrow> string option \<Rightarrow> db \<Rightarrow> response \<times> db" where
  "get_billing_distribution env authorization d =
     (case getAuthClient env authorization of
        None \<Rightarrow> (unauthorized, d)
      | Some user \<Rightarrow>
          (case orders_count (Some [Entregue]) d of
             (completed, d1) \<Rightarrow>
          (case orders_count (Some [Orcamento, Em_Producao, Finalizado]) d1 of
             (pending, d2) \<Rightarrow>
               (json (Distribution_body
                  [(''Finalizados'', or_zero (count_of completed), ''#3b82f6''),
                   (''Em Aberto'', or_zero (count_of pending), ''#10b981'')]),
                d2))))"

subsection \<open>The routes\<close>

text \<open>
  A request as a handler receives it: the \<open>Authorization\<close> header and the route with its
  parameter and parsed body.
\<close>

datatype endpoint =
    GET_customers
  | POST_customers customer_fields
  | DELETE_customer route_id
  | GET_orders
  | GET_order route_id
  | POST_orders orders_body
  | PATCH_order_status route_id string
  | DELETE_order route_id
  | GET_stats
  | GET_billing_trends
  | GET_billing_distribution

record request =
  authorization :: "string option"
  target :: endpoint

definition handler :: "env \<Rightarrow> request \<Rightarrow> db \<Rightarrow> response \<times> db" where
  "handler env req d =
     (case target req of
        GET_customers \<Rightarrow> get_customers env (authorization req) d
      | POST_customers b \<Rightarrow> post_customers env (authorization req) b d
      | DELETE_customer rid \<Rightarrow> delete_customer env (authorization req) rid d
      | GET_orders \<Rightarrow> get_orders env (authorization req) d
      | GET_order rid \<Rightarrow> get_order env (authorization req) rid d
      | POST_orders b \<Rightarrow> post_orders env (authorization req) b d
      | PATCH_order_status rid s \<Rightarrow> patch_order_status env (authorization req) rid s d
      | DELETE_order rid \<Rightarrow> delete_order env (authorization req) rid d
      | GET_stats \<Rightarrow> get_stats env (authorization req) d
      | GET_billing_trends \<Rightarrow> get_billing_trends env (authorization req) d
      | GET_billing_distribution \<Rightarrow> get_billing_distribution env (authorization req) d)"


section \<open>Predicates of the statements\<close>

text \<open>
  The batch ids of a collection of orders (of the orders that have one: not null, not
  empty), and the members of a batch.
\<close>

definition batch_ids :: "Order list \<Rightarrow> string list" where
  "batch_ids os = List.map_filter (\<lambda>order. truthy_value (batch_id order)) os"

definition members :: "Order list \<Rightarrow> string \<Rightarrow> Order list" where
  "members os k = [order \<leftarrow> os. truthy_value (batch_id order) = Some k]"

text \<open>
  A batch id as \<open>POST /api/orders\<close> writes it: null, or a text that begins with
  \<open>batch_\<close>. A database in which every order has such a batch id.
\<close>

definition generated_batch_id :: "string option \<Rightarrow> bool" where
  "generated_batch_id b = (case b of None \<Rightarrow> True | Some k \<Rightarrow> take 6 k = ''batch_'')"

definition stored_batch_ids_generated :: "db \<Rightarrow> bool" where
  "stored_batch_ids_generated d = list_all (\<lambda>r. generated_batch_id (batch_id r)) (orders d)"

text \<open>The orders in the body of an answer of \<open>GET /api/orders\<close>.\<close>

definition listed_orders :: "response \<Rightarrow> Order list" where
  "listed_orders res = (case body res of Orders_body os \<Rightarrow> os | _ \<Rightarrow> [])"

text \<open>No order has a batch id that is a name inherited from \<open>Object.prototype\<close>.\<close>

definition no_inherited_key :: "Order list \<Rightarrow> bool" where
  "no_inherited_key os = (set (batch_ids os) \<inter> set object_prototype_keys = {})"

text \<open>
  What \<open>groups\<close> holds under a key after the loop has run over a list of orders from
  a given state: the list it held, with the members of that batch appended.
\<close>

definition grouped :: "groups \<Rightarrow> Order list \<Rightarrow> string \<Rightarrow> Order list option" where
  "grouped g os k =
     (if members os k = [] then map_of g k
      else Some ((case map_of g k of None \<Rightarrow> [] | Some items \<Rightarrow> items) @ members os k))"

text \<open>A route id that names no order: a number no row has as its id, or no number.\<close>

definition unknown_order :: "route_id \<Rightarrow> db \<Rightarrow> bool" where
  "unknown_order rid d =
     (case rid of Not_numeric \<Rightarrow> True | Numeric i \<Rightarrow> i \<notin> set (map order_id (orders d)))"

text \<open>
  The rows the database holds for a list of accepted payloads: one row each, in order,
  with consecutive ids from \<open>n\<close> on.
\<close>

fun inserted_rows ::
  "env \<Rightarrow> string \<Rightarrow> string option \<Rightarrow> int \<Rightarrow> order_payload list \<Rightarrow> order_row list" where
  "inserted_rows env user b n [] = []"
| "inserted_rows env user b n (p # ps) =
     new_order_row env (order_fields.truncate p) b user n # inserted_rows env user b (n + 1) ps"

section \<open>Concrete inputs\<close>

text \<open>
  An identity provider that knows one token, a database that refuses orders with a
  quantity that is not positive and keeps names in byte order, and a server whose local
  time is UTC, at noon of 15 March 2024.
\<close>

definition example_env :: env where
  "example_env =
     \<lparr>auth_getUser = (\<lambda>t. if t = ''token-ana'' then Some ''user-1'' else None),
      date_now = 1710504000000,
      random_suffix = ''k3j9x0q1z'',
      now = \<lparr>utc_date = (2024, 3, 15), utc_minute = 720, tz_offset = 0\<rparr>,
      db_refuses_customer = (\<lambda>c. None),
      db_refuses_order =
        (\<lambda>f. if quantity f \<le> 0 then Some (Db_error ''23514'' ''violates check constraint'')
             else None),
      db_refuses_images = (\<lambda>rows. None),
      name_precedes = (\<lambda>a b. \<not> str_le b a),
      db_timestamp = ''2024-03-15T12:00:00Z'',
      month_short =
        (\<lambda>m. [''jan.'', ''fev.'', ''mar.'', ''abr.'', ''mai.'', ''jun.'', ''jul.'', ''ago.'',
              ''set.'', ''out.'', ''nov.'', ''dez.''] ! nat (m - 1))\<rparr>"

definition example_token :: "string option" where
  "example_token = Some ''Bearer token-ana''"

definition example_fields :: order_fields where
  "example_fields =
     \<lparr>customer_id = 1, service_type = ''Banner'', description = ''Lona 2x1'',
      quantity = 2, unit_price = 10, total_price = 20, order_date = ''2024-03-01'',
      delivery_date = ''2024-03-05'', status = Orcamento, notes' = None\<rparr>"

definition example_row :: "int \<Rightarrow> string option \<Rightarrow> order_row" where
  "example_row i b = new_order_row example_env example_fields b ''user-1'' i"

definition ana :: customer_fields where
  "ana = \<lparr>name = ''Ana'', phone = ''11999990000'', email = None, company = None\<rparr>"

definition empty_db :: db where
  "empty_db =
     \<lparr>customers = [], orders = [], order_images = [], next_customer_id = 1,
      next_order_id = 1, calls = []\<rparr>"

text \<open>The database after Ana has been created once in the empty one.\<close>

definition after_first_ana :: db where
  "after_first_ana = snd (post_customers example_env example_token ana empty_db)"

definition example_payload :: "real \<Rightarrow> real \<Rightarrow> order_payload" where
  "example_payload q price =
     order_fields.extend
       (example_fields\<lparr>quantity := q, unit_price := price, total_price := q * price\<rparr>)
       (order_payload.fields None)"

text \<open>
  The example of the spec: two items (2 at 10.00 and 1 at 5.00) created in one request
  in the empty database, then listed. The date parser of the example reads the eight
  digits of an ISO date as a number, which orders dates as the calendar does.
\<close>

definition after_two_items :: db where
  "after_two_items =
     snd (post_orders example_env example_token
            (Many [example_payload 2 10, example_payload 1 5]) empty_db)"

definition two_items_listed :: "Order list" where
  "two_items_listed = listed_orders (fst (get_orders example_env example_token after_two_items))"

definition example_getTime :: "string \<Rightarrow> int option" where
  "example_getTime s =
     (if length s = 10 \<and> length (filter is_digit s) = 8
      then Some (decimal_value (filter is_digit s)) else None)"

text \<open>An order of the list view, with a given id, batch id and price.\<close>

definition example_order :: "int \<Rightarrow> string option \<Rightarrow> real \<Rightarrow> Order" where
  "example_order i b price =
     order_row.extend ((example_row i b)\<lparr>total_price := price\<rparr>)
       (Order.fields (Some ''Ana'') (Some ''11999990000''))"

text \<open>
  The three orders of the revenue example, and a server whose local time is one hour
  ahead of UTC, at noon (UTC) of 15 March 2024.
\<close>

definition march_db :: db where
  "march_db =
     \<lparr>customers = [],
      orders =
        [(example_row 1 None)\<lparr>order_date := ''2024-03-01'', total_price := 100\<rparr>,
         (example_row 2 None)\<lparr>order_date := ''2024-03-31'', total_price := 50\<rparr>,
         (example_row 3 None)\<lparr>order_date := ''2024-02-28'', total_price := 30\<rparr>],
      order_images = [], next_customer_id = 1, next_order_id = 4, calls = []\<rparr>"

definition utc_plus_1_env :: env where
  "utc_plus_1_env =
     example_env\<lparr>now := \<lparr>utc_date = (2024, 3, 15), utc_minute = 720, tz_offset = 60\<rparr>\<rparr>"

text \<open>Three orders: 1 and 2 form a batch, 3 stands alone.\<close>

definition example_db :: db where
  "example_db =
     \<lparr>customers =
        [customer_fields.extend ana (customer_row.fields 1 ''user-1'' ''2024-03-01T09:00:00Z'')],
      orders =
        [example_row 1 (Some ''batch_1_a''), example_row 2 (Some ''batch_1_a''),
         example_row 3 None],
      order_images = [], next_customer_id = 2, next_order_id = 4, calls = []\<rparr>"


section \<open>Basic facts\<close>

lemma truthy_value_Some_iff: "truthy_value v = Some b \<longleftrightarrow> v = Some b \<and> b \<noteq> []"
  by (auto simp: truthy_value_def split: option.splits if_splits)

lemma truthy_value_None_iff: "truthy_value v = None \<longleftrightarrow> \<not> truthy v"
  by (auto simp: truthy_value_def truthy_def split: option.splits)

lemma truthy_iff: "truthy v \<longleftrightarrow> (\<exists>b. truthy_value v = Some b)"
  by (auto simp: truthy_value_def truthy_def split: option.splits)

lemma logged_simps [simp]:
  "orders (logged t v d) = orders d"
  "customers (logged t v d) = customers d"
  "order_images (logged t v d) = order_images d"
  "next_order_id (logged t v d) = next_order_id d"
  "next_customer_id (logged t v d) = next_customer_id d"
  "calls (logged t v d) = calls d @ [(t, v)]"
  by (simp_all add: logged_def)

lemmas handler_defs = get_customers_def post_customers_def delete_customer_def get_orders_def
  get_order_def post_orders_def patch_order_status_def delete_order_def get_stats_def
  get_billing_trends_def get_billing_distribution_def

lemmas record_defs = order_fields.defs order_row.defs customer_fields.defs customer_row.defs
  Order.defs GroupedOrder.defs OrderDetail.defs order_payload.defs

lemma example_auth: "getAuthClient example_env example_token = Some ''user-1''"
  by (simp add: getAuthClient_def example_env_def example_token_def)

section \<open>Authentication\<close>

lemma getAuthClient_None_iff:
  "getAuthClient env a = None \<longleftrightarrow>
     (a = None \<or> (\<exists>h. a = Some h \<and> (js_replace ''Bearer '' '''' h = [] \<or>
         auth_getUser env (js_replace ''Bearer '' '''' h) = None)))"
  by (cases a) (auto simp: getAuthClient_def)

text \<open>
  C7. On every route, a request without an \<open>Authorization\<close> header, with one that leaves
  an empty token, or with a token the identity provider does not accept, is answered
  with status 401 and a JSON body that has an \<open>error\<close> field, and the database is left as
  it was: no query is sent (\<open>calls\<close> is part of the state, which is unchanged).
\<close>

theorem unauthenticated_401:
  assumes "authorization req = None \<or>
     (\<exists>h. authorization req = Some h \<and> (js_replace ''Bearer '' '''' h = [] \<or>
         auth_getUser env (js_replace ''Bearer '' '''' h) = None))"
  shows "handler env req d = (\<lparr>http_status = 401, body = Error_body msg_unauthorized\<rparr>, d)"
proof -
  from assms have none: "getAuthClient env (authorization req) = None"
    by (simp only: getAuthClient_None_iff)
  show ?thesis
    by (cases "target req")
       (simp_all add: handler_def handler_defs none unauthorized_def status_json_def)
qed

theorem unauthenticated_401_witness:
  "auth_getUser example_env (js_replace ''Bearer '' '''' ''Bearer stolen'') = None
   \<and> handler example_env \<lparr>authorization = Some ''Bearer stolen'', target = DELETE_order (Numeric 1)\<rparr>
        example_db
      = (\<lparr>http_status = 401, body = Error_body msg_unauthorized\<rparr>, example_db)
   \<and> handler example_env \<lparr>authorization = None, target = GET_stats\<rparr> example_db
      = (\<lparr>http_status = 401, body = Error_body msg_unauthorized\<rparr>, example_db)"
proof -
  have bad: "auth_getUser example_env (js_replace ''Bearer '' '''' ''Bearer stolen'') = None"
    by (simp add: example_env_def)
  have 1: "handler example_env
             \<lparr>authorization = Some ''Bearer stolen'', target = DELETE_order (Numeric 1)\<rparr> example_db
           = (\<lparr>http_status = 401, body = Error_body msg_unauthorized\<rparr>, example_db)"
    by (rule unauthenticated_401) (simp add: example_env_def)
  have 2: "handler example_env \<lparr>authorization = None, target = GET_stats\<rparr> example_db
           = (\<lparr>http_status = 401, body = Error_body msg_unauthorized\<rparr>, example_db)"
    by (rule unauthenticated_401) simp
  from bad 1 2 show ?thesis by simp
qed

section \<open>Status update and delete over a batch\<close>

lemma select_batch_id_found:
  "[r \<leftarrow> orders d. order_id r = i] = [r0] \<Longrightarrow>
   orders_select_batch_id (Numeric i) d = (Inr (batch_id r0), logged ''orders'' SELECT d)"
  by (simp add: orders_select_batch_id_def rows_with_id_def single_def)

lemma select_batch_id_missing:
  "[r \<leftarrow> orders d. order_id r = i] = [] \<Longrightarrow>
   orders_select_batch_id (Numeric i) d = (Inl PGRST116, logged ''orders'' SELECT d)"
  by (simp add: orders_select_batch_id_def rows_with_id_def single_def)

lemma found_unique:
  assumes "[r \<leftarrow> xs. order_id r = i] = [r0]"
  shows "order_id r0 = i" and "r \<in> set xs \<Longrightarrow> order_id r = i \<Longrightarrow> r = r0"
proof -
  have "set [r \<leftarrow> xs. order_id r = i] = {r0}" using assms by simp
  then show "order_id r0 = i" and "r \<in> set xs \<Longrightarrow> order_id r = i \<Longrightarrow> r = r0" by auto
qed

lemmas example_rows = example_db_def example_row_def new_order_row_def record_defs

text \<open>
  What the two handlers do on the id of an existing order \<open>r0\<close>: the rows selected are
  those sharing the batch id of \<open>r0\<close> when it is truthy, and the row with the id
  otherwise.
\<close>

lemma patch_order_status_found:
  assumes auth: "getAuthClient env a = Some user"
    and found: "[r \<leftarrow> orders d. order_id r = i] = [r0]"
  shows "fst (patch_order_status env a (Numeric i) s d) = \<lparr>http_status = 200, body = Success_body\<rparr>"
    and "orders (snd (patch_order_status env a (Numeric i) s d)) =
        map (\<lambda>r. if (if truthy (batch_id r0) then batch_id r = batch_id r0 else order_id r = i)
                  then r\<lparr>status := s\<rparr> else r) (orders d)"
proof (atomize (full), cases "truthy_value (batch_id r0)")
  case None
  then have f: "\<not> truthy (batch_id r0)" by (simp add: truthy_value_None_iff)
  show "fst (patch_order_status env a (Numeric i) s d) = \<lparr>http_status = 200, body = Success_body\<rparr> \<and>
    orders (snd (patch_order_status env a (Numeric i) s d)) =
        map (\<lambda>r. if (if truthy (batch_id r0) then batch_id r = batch_id r0 else order_id r = i)
                  then r\<lparr>status := s\<rparr> else r) (orders d)"
    by (simp add: patch_order_status_def auth select_batch_id_found [OF found]
        looked_up_batch_id_def None f orders_update_status_id_def json_def)
next
  case (Some b)
  then have b: "batch_id r0 = Some b" and t: "truthy (Some b)"
    and tv: "truthy_value (Some b) = Some b"
    by (auto simp: truthy_value_Some_iff truthy_iff)
  show "fst (patch_order_status env a (Numeric i) s d) = \<lparr>http_status = 200, body = Success_body\<rparr> \<and>
    orders (snd (patch_order_status env a (Numeric i) s d)) =
        map (\<lambda>r. if (if truthy (batch_id r0) then batch_id r = batch_id r0 else order_id r = i)
                  then r\<lparr>status := s\<rparr> else r) (orders d)"
    by (auto simp add: patch_order_status_def auth select_batch_id_found [OF found]
        looked_up_batch_id_def tv t b orders_update_status_batch_def json_def)
qed

lemma delete_order_found:
  assumes auth: "getAuthClient env a = Some user"
    and found: "[r \<leftarrow> orders d. order_id r = i] = [r0]"
  shows "fst (delete_order env a (Numeric i) d) = \<lparr>http_status = 200, body = Success_body\<rparr> \<and>
     orders (snd (delete_order env a (Numeric i) d)) =
        [r \<leftarrow> orders d. \<not> (if truthy (batch_id r0) then batch_id r = batch_id r0 else order_id r = i)]"
proof (cases "truthy_value (batch_id r0)")
  case None
  then have f: "\<not> truthy (batch_id r0)" by (simp add: truthy_value_None_iff)
  show ?thesis
    by (simp add: delete_order_def auth select_batch_id_found [OF found]
        looked_up_batch_id_def None f orders_delete_id_def json_def)
next
  case (Some b)
  then have b: "batch_id r0 = Some b" and t: "truthy (Some b)"
    and tv: "truthy_value (Some b) = Some b"
    by (auto simp: truthy_value_Some_iff truthy_iff)
  show ?thesis
    by (auto simp add: delete_order_def auth select_batch_id_found [OF found]
        looked_up_batch_id_def tv t b orders_delete_batch_def json_def)
qed

text \<open>
  C2. For an authenticated request on the id of an existing order \<open>r0\<close> and any status
  \<open>s\<close>: the answer is \<open>{success: true}\<close>; when \<open>r0\<close> has a batch id (not null and not empty,
  which is what the handler's test reads) exactly the orders sharing that batch id get
  status \<open>s\<close>, otherwise exactly the order with that id; every other order is unchanged.
  So after the call every member of the batch has the new status.
\<close>

theorem patch_order_status_cascade:
  assumes auth: "getAuthClient env a = Some user"
    and found: "[r \<leftarrow> orders d. order_id r = i] = [r0]"
  shows "fst (patch_order_status env a (Numeric i) s d) = \<lparr>http_status = 200, body = Success_body\<rparr>
    \<and> orders (snd (patch_order_status env a (Numeric i) s d)) =
        map (\<lambda>r. if (if truthy (batch_id r0) then batch_id r = batch_id r0 else order_id r = i)
                  then r\<lparr>status := s\<rparr> else r) (orders d)
    \<and> (truthy (batch_id r0) \<longrightarrow>
         (\<forall>r \<in> set (orders (snd (patch_order_status env a (Numeric i) s d))).
            batch_id r = batch_id r0 \<longrightarrow> status r = s))"
proof -
  note res = patch_order_status_found [OF auth found, of s]
  have "\<forall>r \<in> set (orders (snd (patch_order_status env a (Numeric i) s d))).
            batch_id r = batch_id r0 \<longrightarrow> status r = s" if "truthy (batch_id r0)"
    unfolding res(2) using that by auto
  with res show ?thesis by (intro conjI impI)
qed

theorem patch_order_status_cascade_witness:
  "getAuthClient example_env example_token = Some ''user-1''
   \<and> [r \<leftarrow> orders example_db. order_id r = 1] = [example_row 1 (Some ''batch_1_a'')]
   \<and> map status (orders (snd (patch_order_status example_env example_token (Numeric 1)
                                 Entregue example_db)))
       = [Entregue, Entregue, Orcamento]"
proof -
  have found: "[r \<leftarrow> orders example_db. order_id r = 1] = [example_row 1 (Some ''batch_1_a'')]"
    by (simp add: example_rows)
  note th = patch_order_status_cascade [OF example_auth found, of Entregue]
  note res = th [THEN conjunct2, THEN conjunct1]
  have "map status (orders (snd (patch_order_status example_env example_token (Numeric 1)
                                 Entregue example_db))) = [Entregue, Entregue, Orcamento]"
    unfolding res by (simp add: example_rows truthy_def example_fields_def)
  with example_auth found show ?thesis by (intro conjI)
qed

text \<open>
  C3. For an authenticated delete on the id of an existing order \<open>r0\<close>: the answer is
  \<open>{success: true}\<close>; when \<open>r0\<close> has a batch id (not null and not empty) exactly the orders
  sharing it are deleted, otherwise exactly the order with that id. Afterwards the
  order is gone, and so is every member of its batch.
\<close>

theorem delete_order_cascade:
  assumes auth: "getAuthClient env a = Some user"
    and found: "[r \<leftarrow> orders d. order_id r = i] = [r0]"
  shows "fst (delete_order env a (Numeric i) d) = \<lparr>http_status = 200, body = Success_body\<rparr>
    \<and> orders (snd (delete_order env a (Numeric i) d)) =
        [r \<leftarrow> orders d. \<not> (if truthy (batch_id r0) then batch_id r = batch_id r0 else order_id r = i)]
    \<and> (\<forall>r \<in> set (orders (snd (delete_order env a (Numeric i) d))).
          order_id r \<noteq> i \<and> (truthy (batch_id r0) \<longrightarrow> batch_id r \<noteq> batch_id r0))"
proof -
  note res = delete_order_found [OF auth found]
  have "order_id r \<noteq> i \<and> (truthy (batch_id r0) \<longrightarrow> batch_id r \<noteq> batch_id r0)"
    if "r \<in> set (orders (snd (delete_order env a (Numeric i) d)))" for r
  proof -
    from that res have mem: "r \<in> set (orders d)"
      and keep: "\<not> (if truthy (batch_id r0) then batch_id r = batch_id r0 else order_id r = i)"
      by auto
    show ?thesis
    proof (cases "truthy (batch_id r0)")
      case True
      with keep have differs: "batch_id r \<noteq> batch_id r0" by simp
      moreover have "order_id r \<noteq> i"
      proof
        assume "order_id r = i"
        with found_unique(2) [OF found mem] have "r = r0" by simp
        with differs show False by simp
      qed
      ultimately show ?thesis by simp
    next
      case False
      with keep show ?thesis by simp
    qed
  qed
  with res show ?thesis by blast
qed

theorem delete_order_cascade_witness:
  "getAuthClient example_env example_token = Some ''user-1''
   \<and> [r \<leftarrow> orders example_db. order_id r = 2] = [example_row 2 (Some ''batch_1_a'')]
   \<and> map order_id (orders (snd (delete_order example_env example_token (Numeric 2) example_db))) = [3]"
proof -
  have found: "[r \<leftarrow> orders example_db. order_id r = 2] = [example_row 2 (Some ''batch_1_a'')]"
    by (simp add: example_rows)
  note th = delete_order_cascade [OF example_auth found]
  note res = th [THEN conjunct2, THEN conjunct1]
  have "map order_id (orders (snd (delete_order example_env example_token (Numeric 2) example_db))) = [3]"
    unfolding res by (simp add: example_rows truthy_def)
  with example_auth found show ?thesis by (intro conjI)
qed

text \<open>
  C10. The status of the request is stored as it is: for every string \<open>s\<close> (no
  condition on \<open>s\<close>, so also for \<open>Arquivado\<close> and for a text that is no status of the
  interface \<open>Order\<close>) an authenticated request on an existing order is answered
  \<open>{success: true}\<close>, the order then has status \<open>s\<close>, and so has every order of its batch.
\<close>

theorem patch_status_any_string:
  assumes auth: "getAuthClient env a = Some user"
    and found: "[r \<leftarrow> orders d. order_id r = i] = [r0]"
  shows "fst (patch_order_status env a (Numeric i) s d) = \<lparr>http_status = 200, body = Success_body\<rparr>
    \<and> map status [r \<leftarrow> orders (snd (patch_order_status env a (Numeric i) s d)). order_id r = i] = [s]
    \<and> (\<forall>r \<in> set (orders (snd (patch_order_status env a (Numeric i) s d))).
          truthy (batch_id r0) \<and> batch_id r = batch_id r0 \<longrightarrow> status r = s)"
proof -
  note res = patch_order_status_found [OF auth found, of s]
  let ?f = "\<lambda>r. if (if truthy (batch_id r0) then batch_id r = batch_id r0 else order_id r = i)
                 then r\<lparr>status := s\<rparr> else r"
  have id0: "order_id r0 = i" by (rule found_unique(1) [OF found])
  have keep_id: "order_id (?f r) = order_id r" for r by simp
  have "[r \<leftarrow> map ?f (orders d). order_id r = i] = map ?f [r \<leftarrow> orders d. order_id r = i]"
    by (simp only: filter_map o_def keep_id)
  also have "\<dots> = [?f r0]" by (simp only: found list.map)
  also have "?f r0 = r0\<lparr>status := s\<rparr>" using id0 by simp
  finally have one: "map status [r \<leftarrow> map ?f (orders d). order_id r = i] = [s]" by simp
  have all: "\<forall>r \<in> set (map ?f (orders d)).
      truthy (batch_id r0) \<and> batch_id r = batch_id r0 \<longrightarrow> status r = s"
    by auto
  show ?thesis
  proof (intro conjI)
    show "fst (patch_order_status env a (Numeric i) s d) = \<lparr>http_status = 200, body = Success_body\<rparr>"
      by (rule res(1))
    show "map status [r \<leftarrow> orders (snd (patch_order_status env a (Numeric i) s d)). order_id r = i] = [s]"
      unfolding res(2) by (rule one)
    show "\<forall>r \<in> set (orders (snd (patch_order_status env a (Numeric i) s d))).
          truthy (batch_id r0) \<and> batch_id r = batch_id r0 \<longrightarrow> status r = s"
      unfolding res(2) by (rule all)
  qed
qed

theorem patch_status_any_string_witness:
  "getAuthClient example_env example_token = Some ''user-1''
   \<and> [r \<leftarrow> orders example_db. order_id r = 3] = [example_row 3 None]
   \<and> fst (patch_order_status example_env example_token (Numeric 3) Arquivado example_db)
       = \<lparr>http_status = 200, body = Success_body\<rparr>
   \<and> map status [r \<leftarrow> orders (snd (patch_order_status example_env example_token (Numeric 3)
                                        Arquivado example_db)). order_id r = 3] = [Arquivado]
   \<and> map status [r \<leftarrow> orders (snd (patch_order_status example_env example_token (Numeric 3)
                                        ''qualquer coisa'' example_db)). order_id r = 3]
       = [''qualquer coisa'']"
proof -
  have found: "[r \<leftarrow> orders example_db. order_id r = 3] = [example_row 3 None]"
    by (simp add: example_rows)
  note th1 = patch_status_any_string [OF example_auth found, of Arquivado]
  note th2 = patch_status_any_string [OF example_auth found, of "''qualquer coisa''"]
  from example_auth found th1 [THEN conjunct1] th1 [THEN conjunct2, THEN conjunct1]
    th2 [THEN conjunct2, THEN conjunct1]
  show ?thesis by (intro conjI)
qed

section \<open>Requests on an id that names no order\<close>

lemma filter_id_empty: "i \<notin> set (map order_id xs) \<Longrightarrow> [r \<leftarrow> xs. order_id r = i] = []"
  by (induction xs) auto

lemma select_batch_id_unknown:
  "unknown_order rid d \<Longrightarrow> \<exists>e. orders_select_batch_id rid d = (Inl e, logged ''orders'' SELECT d)"
  by (cases rid)
     (simp_all add: unknown_order_def orders_select_batch_id_def rows_with_id_def single_def
        filter_id_empty)

lemma select_one_unknown:
  "unknown_order rid d \<Longrightarrow> \<exists>e. orders_select_one rid d = (Inl e, logged ''orders'' SELECT d)"
  by (cases rid)
     (simp_all add: unknown_order_def orders_select_one_def rows_with_id_def single_def
        filter_id_empty)

lemma update_id_unknown:
  "unknown_order rid d \<Longrightarrow> orders (snd (orders_update_status_id s rid d)) = orders d"
  by (cases rid) (auto simp: unknown_order_def orders_update_status_id_def intro!: map_idI)

lemma delete_id_unknown:
  "unknown_order rid d \<Longrightarrow> orders (snd (orders_delete_id rid d)) = orders d"
  by (cases rid) (auto simp: unknown_order_def orders_delete_id_def intro!: filter_True)

lemma unknown_order_logged [simp]: "unknown_order rid (logged t v d) = unknown_order rid d"
  by (simp add: unknown_order_def split: route_id.splits)

text \<open>
  C8, as the claim states it, fails: \<open>PATCH /api/orders/:id/status\<close> and
  \<open>DELETE /api/orders/:id\<close> on an id that no order has (99, where the orders are 1, 2
  and 3) are answered with status 200, not 404. The two handlers read the looked-up
  order with \<open>order?.batch_id\<close> and go on to the update or delete by id when there is
  none.
\<close>

theorem unknown_order_id_counterexample:
  "getAuthClient example_env example_token = Some ''user-1''
   \<and> map order_id (orders example_db) = [1, 2, 3]
   \<and> http_status (fst (patch_order_status example_env example_token (Numeric 99) Entregue example_db)) = 200
   \<and> http_status (fst (delete_order example_env example_token (Numeric 99) example_db)) = 200"
proof -
  have ids: "map order_id (orders example_db) = [1, 2, 3]"
    by (simp add: example_rows)
  have none: "[r \<leftarrow> orders example_db. order_id r = 99] = []"
    by (simp add: example_rows)
  note look = select_batch_id_missing [OF none]
  have p: "http_status (fst (patch_order_status example_env example_token (Numeric 99) Entregue example_db)) = 200"
    by (simp add: patch_order_status_def example_auth look looked_up_batch_id_def json_def)
  have x: "http_status (fst (delete_order example_env example_token (Numeric 99) example_db)) = 200"
    by (simp add: delete_order_def example_auth look looked_up_batch_id_def json_def)
  from example_auth ids p x show ?thesis by (intro conjI)
qed

text \<open>
  C8, amended. For an authenticated request whose id names no order,
  \<open>GET /api/orders/:id\<close> is answered 404 with an error body; \<open>PATCH /api/orders/:id/status\<close>
  and \<open>DELETE /api/orders/:id\<close> are answered \<open>{success: true}\<close> with status 200 and leave
  every order as it was.
\<close>

theorem unknown_order_id:
  assumes auth: "getAuthClient env a = Some user"
    and unknown: "unknown_order rid d"
  shows "fst (get_order env a rid d) = \<lparr>http_status = 404, body = Error_body msg_order_not_found\<rparr>
    \<and> fst (patch_order_status env a rid s d) = \<lparr>http_status = 200, body = Success_body\<rparr>
    \<and> orders (snd (patch_order_status env a rid s d)) = orders d
    \<and> fst (delete_order env a rid d) = \<lparr>http_status = 200, body = Success_body\<rparr>
    \<and> orders (snd (delete_order env a rid d)) = orders d"
proof -
  from select_one_unknown [OF unknown] obtain e1
    where one: "orders_select_one rid d = (Inl e1, logged ''orders'' SELECT d)" ..
  from select_batch_id_unknown [OF unknown] obtain e2
    where look: "orders_select_batch_id rid d = (Inl e2, logged ''orders'' SELECT d)" ..
  have unknown': "unknown_order rid (logged ''orders'' SELECT d)" using unknown by simp
  have g: "fst (get_order env a rid d) = \<lparr>http_status = 404, body = Error_body msg_order_not_found\<rparr>"
    by (simp add: get_order_def auth one status_json_def)
  have p: "patch_order_status env a rid s d =
      (json Success_body, snd (orders_update_status_id s rid (logged ''orders'' SELECT d)))"
    by (simp add: patch_order_status_def auth look looked_up_batch_id_def)
  have x: "delete_order env a rid d =
      (json Success_body, snd (orders_delete_id rid (logged ''orders'' SELECT d)))"
    by (simp add: delete_order_def auth look looked_up_batch_id_def)
  show ?thesis
    by (simp add: g p x json_def update_id_unknown [OF unknown'] delete_id_unknown [OF unknown'])
qed

theorem unknown_order_id_witness:
  "getAuthClient example_env example_token = Some ''user-1''
   \<and> unknown_order (Numeric 99) example_db
   \<and> http_status (fst (get_order example_env example_token (Numeric 99) example_db)) = 404
   \<and> orders (snd (delete_order example_env example_token (Numeric 99) example_db)) = orders example_db"
proof -
  have u: "unknown_order (Numeric 99) example_db"
    by (simp add: unknown_order_def example_rows)
  from unknown_order_id [OF example_auth u] show ?thesis
    by (simp add: example_auth u)
qed

section \<open>Creating orders\<close>

lemma new_order_row_batch_id [simp]: "batch_id (new_order_row env vals b user i) = b"
  by (simp add: new_order_row_def record_defs)

lemma images_insert_keeps [simp]:
  "orders (snd (order_images_insert env rows d)) = orders d"
  "next_order_id (snd (order_images_insert env rows d)) = next_order_id d"
  by (simp_all add: order_images_insert_def split: option.splits)

lemma insert_images_keeps [simp]:
  "orders (insert_images env i p d) = orders d"
  "next_order_id (insert_images env i p d) = next_order_id d"
  by (simp_all add: insert_images_def split: option.splits list.splits)

lemma insert_orders_created:
  "\<exists>created. orders (snd (insert_orders env user b ids ps d)) = orders d @ created
      \<and> (\<forall>r \<in> set created. batch_id r = b)"
proof (induction ps arbitrary: ids d)
  case Nil
  show ?case by simp
next
  case (Cons p ps)
  show ?case
  proof (cases "db_refuses_order env (order_fields.truncate p)")
    case (Some e)
    then show ?thesis
      by (simp add: orders_insert_def)
  next
    case None
    let ?row = "new_order_row env (order_fields.truncate p) b user (next_order_id d)"
    let ?d2 = "insert_images env (next_order_id d) p
        (logged ''orders'' INSERT (d\<lparr>orders := orders d @ [?row], next_order_id := next_order_id d + 1\<rparr>))"
    from Cons.IH [of "ids @ [next_order_id d]" ?d2] obtain created
      where c: "orders (snd (insert_orders env user b (ids @ [next_order_id d]) ps ?d2))
                = orders ?d2 @ created" and b: "\<forall>r \<in> set created. batch_id r = b"
      by blast
    have "orders (snd (insert_orders env user b ids (p # ps) d)) = orders d @ (?row # created)"
      by (simp add: orders_insert_def None c)
    moreover have "\<forall>r \<in> set (?row # created). batch_id r = b" using b by simp
    ultimately show ?thesis by blast
  qed
qed

lemma insert_orders_accepted:
  "\<forall>x \<in> set ps. db_refuses_order env (order_fields.truncate x) = None \<Longrightarrow>
   orders (snd (insert_orders env user b ids ps d))
     = orders d @ inserted_rows env user b (next_order_id d) ps"
proof (induction ps arbitrary: ids d)
  case Nil
  show ?case by simp
next
  case (Cons p ps)
  then have None: "db_refuses_order env (order_fields.truncate p) = None"
    and rest: "\<forall>x \<in> set ps. db_refuses_order env (order_fields.truncate x) = None"
    by simp_all
  show ?case
    by (simp add: orders_insert_def None Cons.IH [OF rest])
qed

lemma insert_orders_refused:
  assumes "\<forall>x \<in> set ps. db_refuses_order env (order_fields.truncate x) = None"
    and "db_refuses_order env (order_fields.truncate p) = Some e"
  shows "fst (insert_orders env user b ids (ps @ p # qs) d)
           = \<lparr>http_status = 500, body = Error_body msg_save_failed\<rparr>
       \<and> orders (snd (insert_orders env user b ids (ps @ p # qs) d))
           = orders d @ inserted_rows env user b (next_order_id d) ps"
  using assms
proof (induction ps arbitrary: ids d)
  case Nil
  then show ?case by (simp add: orders_insert_def status_json_def)
next
  case (Cons x xs)
  then have None: "db_refuses_order env (order_fields.truncate x) = None"
    and rest: "\<forall>x \<in> set xs. db_refuses_order env (order_fields.truncate x) = None"
    by simp_all
  show ?case
    by (simp add: orders_insert_def None Cons.IH [OF rest Cons.prems(2)])
qed

lemma inserted_rows_length [simp]: "length (inserted_rows env user b n ps) = length ps"
  by (induction ps arbitrary: n) simp_all



text \<open>
  C5. When the payloads of an authenticated request are \<open>ps\<close>, then a payload the database
  refuses, then \<open>qs\<close>, and every payload of \<open>ps\<close> is accepted: the rows of \<open>ps\<close> are in the
  table after the request (nothing is rolled back, nothing of \<open>qs\<close> is inserted) and the
  answer is status 500 with the fixed message \<open>Erro ao salvar pedidos.\<close>, which says
  neither which row failed nor which rows were stored.
\<close>

theorem post_orders_partial_failure:
  assumes auth: "getAuthClient env a = Some user"
    and split: "ordersData req_body = ps @ p # qs"
    and accepted: "\<forall>x \<in> set ps. db_refuses_order env (order_fields.truncate x) = None"
    and refused: "db_refuses_order env (order_fields.truncate p) = Some e"
  shows "fst (post_orders env a req_body d)
           = \<lparr>http_status = 500, body = Error_body msg_save_failed\<rparr>
    \<and> orders (snd (post_orders env a req_body d))
         = orders d @ inserted_rows env user
             (if 1 < length (ordersData req_body) then Some (new_batch_id env) else None)
             (next_order_id d) ps"
proof -
  let ?b = "if 1 < length (ordersData req_body) then Some (new_batch_id env) else None"
  have post: "post_orders env a req_body d = insert_orders env user ?b [] (ps @ p # qs) d"
    by (simp add: post_orders_def auth split)
  show ?thesis
    unfolding post by (rule insert_orders_refused [OF accepted refused])
qed



lemma example_payload_accepted:
  "0 < q \<Longrightarrow> db_refuses_order example_env (order_fields.truncate (example_payload q price)) = None"
  by (simp add: example_env_def example_payload_def example_fields_def record_defs)

lemma example_payload_refused:
  "db_refuses_order example_env (order_fields.truncate (example_payload 0 price))
     = Some (Db_error ''23514'' ''violates check constraint'')"
  by (simp add: example_env_def example_payload_def example_fields_def record_defs)

lemma example_batch_id: "new_batch_id example_env = ''batch_1710504000000_k3j9x0q1z''"
  by (simp add: new_batch_id_def example_env_def digit_char_def)


theorem post_orders_partial_failure_witness:
  "getAuthClient example_env example_token = Some ''user-1''
   \<and> ordersData (Many [example_payload 2 10, example_payload 0 5, example_payload 1 5])
       = [example_payload 2 10] @ example_payload 0 5 # [example_payload 1 5]
   \<and> db_refuses_order example_env (order_fields.truncate (example_payload 2 10)) = None
   \<and> db_refuses_order example_env (order_fields.truncate (example_payload 0 5))
       = Some (Db_error ''23514'' ''violates check constraint'')
   \<and> fst (post_orders example_env example_token
            (Many [example_payload 2 10, example_payload 0 5, example_payload 1 5]) empty_db)
       = \<lparr>http_status = 500, body = Error_body ''Erro ao salvar pedidos.''\<rparr>
   \<and> map order_id (orders (snd (post_orders example_env example_token
            (Many [example_payload 2 10, example_payload 0 5, example_payload 1 5]) empty_db)))
       = [1]
   \<and> map total_price (orders (snd (post_orders example_env example_token
            (Many [example_payload 2 10, example_payload 0 5, example_payload 1 5]) empty_db)))
       = [20]"
proof -
  let ?body = "Many [example_payload 2 10, example_payload 0 5, example_payload 1 5]"
  have split: "ordersData ?body = [example_payload 2 10] @ example_payload 0 5 # [example_payload 1 5]"
    by (simp add: ordersData_def)
  have acc: "db_refuses_order example_env (order_fields.truncate (example_payload 2 10)) = None"
    by (simp add: example_payload_accepted)
  then have accepted: "\<forall>x \<in> set [example_payload 2 10].
      db_refuses_order example_env (order_fields.truncate x) = None"
    by simp
  note th = post_orders_partial_failure
    [OF example_auth split accepted example_payload_refused, of empty_db]
  have rows: "map order_id (inserted_rows example_env ''user-1''
        (if 1 < length (ordersData ?body) then Some (new_batch_id example_env) else None)
        (next_order_id empty_db) [example_payload 2 10]) = [1]"
    by (simp add: new_order_row_def record_defs empty_db_def)
  have prices: "map total_price (inserted_rows example_env ''user-1''
        (if 1 < length (ordersData ?body) then Some (new_batch_id example_env) else None)
        (next_order_id empty_db) [example_payload 2 10]) = [20]"
    by (simp add: new_order_row_def record_defs empty_db_def example_payload_def example_fields_def)
  have e: "orders empty_db = []" by (simp add: empty_db_def)
  from th rows prices
  have "fst (post_orders example_env example_token ?body empty_db)
          = \<lparr>http_status = 500, body = Error_body ''Erro ao salvar pedidos.''\<rparr>"
    and "map order_id (orders (snd (post_orders example_env example_token ?body empty_db))) = [1]"
    and "map total_price (orders (snd (post_orders example_env example_token ?body empty_db))) = [20]"
    by (simp_all add: msg_save_failed_def e)
  with example_auth split acc example_payload_refused show ?thesis by (intro conjI)
qed

section \<open>Creating a customer twice\<close>

lemma unique_match:
  "distinct (map f xs) \<Longrightarrow> k \<in> set (map f xs) \<Longrightarrow> \<exists>c. [x \<leftarrow> xs. f x = k] = [c]"
proof (induction xs)
  case Nil
  then show ?case by simp
next
  case (Cons x xs)
  show ?case
  proof (cases "f x = k")
    case True
    with Cons.prems have "k \<notin> set (map f xs)" by auto
    then have "[y \<leftarrow> xs. f y = k] = []" by (induction xs) auto
    with True show ?thesis by simp
  next
    case False
    with Cons show ?thesis by auto
  qed
qed

lemma no_match: "k \<notin> set (map f xs) \<Longrightarrow> [x \<leftarrow> xs. f x = k] = []"
  by (induction xs) auto

lemma post_customers_one_match:
  assumes auth: "getAuthClient env a = Some user"
    and unique: "distinct (map (\<lambda>c. (name c, phone c)) (customers d))"
    and existing: "(name req_body, phone req_body)
                     \<in> set (map (\<lambda>c. (name c, phone c)) (customers d))"
  shows "post_customers env a req_body d =
           (\<lparr>http_status = 400, body = Error_body msg_duplicate_customer\<rparr>,
            logged ''customers'' SELECT d)"
proof -
  from unique_match [OF unique existing] obtain c
    where "[x \<leftarrow> customers d. (name x, phone x) = (name req_body, phone req_body)] = [c]" ..
  then have one: "[x \<leftarrow> customers d. name x = name req_body \<and> phone x = phone req_body] = [c]"
    by simp
  show ?thesis
    by (simp add: post_customers_def auth customers_select_existing_def one status_json_def)
qed

text \<open>Every request to create a customer keeps the names and phones distinct.\<close>

lemma post_customers_keeps_unique:
  assumes unique: "distinct (map (\<lambda>c. (name c, phone c)) (customers d))"
  shows "distinct (map (\<lambda>c. (name c, phone c)) (customers (snd (post_customers env a req_body d))))"
proof (cases "getAuthClient env a")
  case None
  with unique show ?thesis by (simp add: post_customers_def)
next
  case (Some user)
  show ?thesis
  proof (cases "(name req_body, phone req_body) \<in> set (map (\<lambda>c. (name c, phone c)) (customers d))")
    case True
    from post_customers_one_match [OF Some unique True] unique show ?thesis by simp
  next
    case False
    from no_match [OF False]
    have none: "[x \<leftarrow> customers d. name x = name req_body \<and> phone x = phone req_body] = []"
      by simp
    have key: "(name (customer_fields.extend req_body ext), phone (customer_fields.extend req_body ext))
        = (name req_body, phone req_body)" for ext :: "'a customer_row_ext"
      by (simp add: record_defs)
    from unique False show ?thesis
      by (cases "db_refuses_customer env req_body")
         (auto simp add: post_customers_def Some customers_select_existing_def none
            customers_insert_def record_defs)
  qed
qed

text \<open>
  C9. In a database where no two customers of the user share name and phone (the
  uniqueness the data model asks for, which \<open>post_customers_keeps_unique\<close> shows every
  request keeps), an authenticated request to create a customer whose name and phone
  are those of an existing one is answered 400 with an error body, and no customer is
  inserted. With two or more such rows already stored, which only requests running at
  the same time can produce, \<open>maybeSingle\<close> answers an error and the handler inserts; that
  case is outside the statement.
\<close>

theorem post_customers_duplicate:
  assumes auth: "getAuthClient env a = Some user"
    and unique: "distinct (map (\<lambda>c. (name c, phone c)) (customers d))"
    and existing: "(name req_body, phone req_body)
                     \<in> set (map (\<lambda>c. (name c, phone c)) (customers d))"
  shows "fst (post_customers env a req_body d)
           = \<lparr>http_status = 400, body = Error_body msg_duplicate_customer\<rparr>
    \<and> customers (snd (post_customers env a req_body d)) = customers d"
proof -
  note res = post_customers_one_match [OF auth unique existing]
  show ?thesis unfolding res by simp
qed

lemma first_ana:
  "post_customers example_env example_token ana empty_db =
     (\<lparr>http_status = 200, body = Id_body 1\<rparr>,
      logged ''customers'' INSERT (logged ''customers'' SELECT empty_db)
        \<lparr>customers := [customer_fields.extend ana
                          (customer_row.fields 1 ''user-1'' ''2024-03-15T12:00:00Z'')],
         next_customer_id := 2\<rparr>)"
proof -
  have refuse: "db_refuses_customer example_env ana = None"
    and ts: "db_timestamp example_env = ''2024-03-15T12:00:00Z''"
    by (simp_all add: example_env_def)
  show ?thesis
    by (simp add: post_customers_def example_auth customers_select_existing_def
          customers_insert_def json_def refuse ts empty_db_def logged_def)
qed

theorem post_customers_duplicate_witness:
  "getAuthClient example_env example_token = Some ''user-1''
   \<and> fst (post_customers example_env example_token ana empty_db)
       = \<lparr>http_status = 200, body = Id_body 1\<rparr>
   \<and> map name (customers after_first_ana) = [''Ana'']
   \<and> map phone (customers after_first_ana) = [''11999990000'']
   \<and> fst (post_customers example_env example_token ana after_first_ana)
       = \<lparr>http_status = 400, body = Error_body msg_duplicate_customer\<rparr>
   \<and> customers (snd (post_customers example_env example_token ana after_first_ana))
       = customers after_first_ana"
proof -
  have rows: "customers after_first_ana =
      [customer_fields.extend ana (customer_row.fields 1 ''user-1'' ''2024-03-15T12:00:00Z'')]"
    by (simp add: after_first_ana_def first_ana)
  have names: "map name (customers after_first_ana) = [''Ana'']"
    and phones: "map phone (customers after_first_ana) = [''11999990000'']"
    by (simp_all add: rows record_defs ana_def)
  have unique: "distinct (map (\<lambda>c. (name c, phone c)) (customers after_first_ana))"
    by (simp add: rows)
  have existing: "(name ana, phone ana)
      \<in> set (map (\<lambda>c. (name c, phone c)) (customers after_first_ana))"
    by (simp add: rows record_defs)
  note th = post_customers_duplicate [OF example_auth unique existing]
  have first: "fst (post_customers example_env example_token ana empty_db)
       = \<lparr>http_status = 200, body = Id_body 1\<rparr>"
    by (simp add: first_ana)
  from example_auth first names phones th [THEN conjunct1] th [THEN conjunct2]
  show ?thesis by (intro conjI)
qed

section \<open>Monthly revenue\<close>

lemmas date_defs = startOfMonth_def endOfMonth_def iso_month_def iso_date_def pad2_def pad4_def
  digit_char_def local_date_def utc_date_of_local_midnight_def last_day_of_month_def
  days_in_month_def leap_year_def prev_day_def next_day_def

lemma utc_plus_1_window:
  "startOfMonth (now utc_plus_1_env) = ''2024-03-01''"
  "endOfMonth (now utc_plus_1_env) = ''2024-03-30''"
  by (simp_all add: utc_plus_1_env_def example_env_def date_defs)

lemma utc_plus_1_auth: "getAuthClient utc_plus_1_env example_token = Some ''user-1''"
  by (simp add: getAuthClient_def utc_plus_1_env_def example_env_def example_token_def)

text \<open>
  The answer of \<open>GET /api/stats\<close>: the counts, and the sum of the prices of the orders
  dated from \<open>startOfMonth\<close> to \<open>endOfMonth\<close>, both included.
\<close>

lemma get_stats_revenue:
  assumes "getAuthClient env a = Some user"
  shows "body (fst (get_stats env a d)) =
     Stats_body \<lparr>totalOrders = Some (int (length (orders d))),
       ongoingOrders = Some (int (length [r \<leftarrow> orders d. status r \<in> {Orcamento, Em_Producao}])),
       monthlyRevenue = sum_list (map total_price
          [r \<leftarrow> orders d. str_le (startOfMonth (now env)) (order_date r)
                           \<and> str_le (order_date r) (endOfMonth (now env))]),
       totalCustomers = Some (int (length (customers d))),
       pendingOrders = Some (int (length [r \<leftarrow> orders d. status r = Orcamento]))\<rparr>"
proof -
  have fold: "foldl (\<lambda>sum p. sum + p) 0 xs = sum_list xs" for xs :: "real list"
    by (simp add: foldl_conv_fold fold_plus_sum_list_rev add.commute)
  show ?thesis
    by (simp add: get_stats_def assms orders_count_def customers_count_def
        orders_select_prices_def count_of_def revenue_of_def json_def fold
        split: prod.splits)
qed

text \<open>
  C6. The example of the claim, with the server's local time one hour ahead of UTC, at
  noon (UTC) of 15 March 2024: \<open>endOfMonth\<close> is midnight of 31 March in local time
  written in UTC, \<open>2024-03-30\<close>, so the order of 31 March is outside the window and the
  monthly revenue is 100, not 150. On a server whose local time is UTC the handler
  returns 150 at every instant of March 2024 (\<open>stats_march_utc\<close>).
\<close>

theorem stats_march_utc_plus_1:
  "getAuthClient utc_plus_1_env example_token = Some ''user-1''
   \<and> map order_date (orders march_db) = [''2024-03-01'', ''2024-03-31'', ''2024-02-28'']
   \<and> map total_price (orders march_db) = [100, 50, 30]
   \<and> utc_date (now utc_plus_1_env) = (2024, 3, 15)
   \<and> tz_offset (now utc_plus_1_env) = 60
   \<and> startOfMonth (now utc_plus_1_env) = ''2024-03-01''
   \<and> endOfMonth (now utc_plus_1_env) = ''2024-03-30''
   \<and> body (fst (get_stats utc_plus_1_env example_token march_db)) =
       Stats_body \<lparr>totalOrders = Some 3, ongoingOrders = Some 3, monthlyRevenue = 100,
                   totalCustomers = Some 0, pendingOrders = Some 3\<rparr>"
proof -
  have rows: "orders march_db =
        [(example_row 1 None)\<lparr>order_date := ''2024-03-01'', total_price := 100\<rparr>,
         (example_row 2 None)\<lparr>order_date := ''2024-03-31'', total_price := 50\<rparr>,
         (example_row 3 None)\<lparr>order_date := ''2024-02-28'', total_price := 30\<rparr>]"
    and cust: "customers march_db = []"
    by (simp_all add: march_db_def)
  have st: "status (example_row i b) = Orcamento" for i b
    by (simp add: example_row_def new_order_row_def record_defs example_fields_def)
  have clock: "utc_date (now utc_plus_1_env) = (2024, 3, 15)" "tz_offset (now utc_plus_1_env) = 60"
    by (simp_all add: utc_plus_1_env_def)
  have stats: "body (fst (get_stats utc_plus_1_env example_token march_db)) =
       Stats_body \<lparr>totalOrders = Some 3, ongoingOrders = Some 3, monthlyRevenue = 100,
                   totalCustomers = Some 0, pendingOrders = Some 3\<rparr>"
    by (simp add: get_stats_revenue [OF utc_plus_1_auth] utc_plus_1_window rows cust st)
  have dates: "map order_date (orders march_db) = [''2024-03-01'', ''2024-03-31'', ''2024-02-28'']"
    and prices: "map total_price (orders march_db) = [100, 50, 30]"
    by (simp_all add: rows)
  from utc_plus_1_auth dates prices clock utc_plus_1_window stats show ?thesis
    by (intro conjI)
qed


text \<open>
  On a server whose local time is UTC the window is the whole month of the current
  date, and the example of the claim gives 150 at every instant of March 2024.
\<close>

lemma utc_window:
  assumes "tz_offset c = 0" and "0 \<le> utc_minute c" and "utc_minute c < 1440"
    and "utc_date c = (y, m, dd)"
  shows "startOfMonth c = iso_date (y, m, 1)"
    and "endOfMonth c = iso_date (y, m, days_in_month y m)"
  using assms
  by (simp_all add: startOfMonth_def endOfMonth_def local_date_def iso_month_def iso_date_def
        utc_date_of_local_midnight_def last_day_of_month_def pad2_def digit_char_def)

lemma stats_march_utc:
  assumes auth: "getAuthClient env a = Some user"
    and utc: "tz_offset (now env) = 0"
    and minute: "0 \<le> utc_minute (now env)" "utc_minute (now env) < 1440"
    and march: "utc_date (now env) = (2024, 3, dd)"
  shows "body (fst (get_stats env a march_db)) =
       Stats_body \<lparr>totalOrders = Some 3, ongoingOrders = Some 3, monthlyRevenue = 150,
                   totalCustomers = Some 0, pendingOrders = Some 3\<rparr>"
proof -
  have rows: "orders march_db =
        [(example_row 1 None)\<lparr>order_date := ''2024-03-01'', total_price := 100\<rparr>,
         (example_row 2 None)\<lparr>order_date := ''2024-03-31'', total_price := 50\<rparr>,
         (example_row 3 None)\<lparr>order_date := ''2024-02-28'', total_price := 30\<rparr>]"
    and cust: "customers march_db = []"
    by (simp_all add: march_db_def)
  have st: "status (example_row i b) = Orcamento" for i b
    by (simp add: example_row_def new_order_row_def record_defs example_fields_def)
  have window: "startOfMonth (now env) = ''2024-03-01''" "endOfMonth (now env) = ''2024-03-31''"
    using utc_window [OF utc minute march]
    by (simp_all add: iso_date_def pad2_def pad4_def digit_char_def days_in_month_def)
  show ?thesis
    by (simp add: get_stats_revenue [OF auth] window rows cust st)
qed

section \<open>The batch ids the server stores\<close>

text \<open>
  The only place that writes \<open>batch_id\<close> is the insert of \<open>POST /api/orders\<close>, and what it
  writes is null or the generated text. So every request keeps the batch ids of the
  table null or generated, and they are so in every database the handlers build from
  the empty one.
\<close>

lemma new_batch_id_generated: "generated_batch_id (Some (new_batch_id env))"
  by (simp add: generated_batch_id_def new_batch_id_def)

lemma trend_month_orders [simp]: "orders (snd (trend_month env i d)) = orders d"
  by (simp add: trend_month_def orders_select_prices_def split: prod.splits)

lemma trend_months_orders: "orders (snd (trend_months env ms d)) = orders d"
  by (induction ms arbitrary: d) (simp_all add: split_beta)

lemma generated_status_update:
  "list_all (\<lambda>r. generated_batch_id (batch_id r))
     (map (\<lambda>r. if c r then r\<lparr>status := s\<rparr> else r) rows)
   = list_all (\<lambda>r. generated_batch_id (batch_id r)) rows"
  by (induction rows) simp_all

lemma generated_filter:
  "list_all (\<lambda>r. generated_batch_id (batch_id r)) rows \<Longrightarrow>
   list_all (\<lambda>r. generated_batch_id (batch_id r)) (filter c rows)"
  by (induction rows) simp_all

lemma patch_keeps_generated:
  "stored_batch_ids_generated d \<Longrightarrow>
   stored_batch_ids_generated (snd (patch_order_status env a rid s d))"
  by (cases rid)
     (auto simp: stored_batch_ids_generated_def patch_order_status_def unauthorized_def
        orders_select_batch_id_def orders_update_status_batch_def orders_update_status_id_def
        generated_status_update
        split: option.splits prod.splits)

lemma delete_keeps_generated:
  "stored_batch_ids_generated d \<Longrightarrow>
   stored_batch_ids_generated (snd (delete_order env a rid d))"
  by (cases rid)
     (auto simp: stored_batch_ids_generated_def delete_order_def unauthorized_def
        orders_select_batch_id_def orders_delete_batch_def orders_delete_id_def
        generated_filter
        split: option.splits prod.splits)

lemma post_orders_keeps_generated:
  assumes "stored_batch_ids_generated d"
  shows "stored_batch_ids_generated (snd (post_orders env a req_body d))"
proof (cases "getAuthClient env a")
  case None
  with assms show ?thesis by (simp add: post_orders_def)
next
  case (Some user)
  let ?b = "if 1 < length (ordersData req_body) then Some (new_batch_id env) else None"
  have post: "post_orders env a req_body d = insert_orders env user ?b [] (ordersData req_body) d"
    by (simp add: post_orders_def Some)
  from insert_orders_created [of env user ?b "[]" "ordersData req_body" d] obtain created
    where c: "orders (snd (post_orders env a req_body d)) = orders d @ created"
      and b: "\<forall>r \<in> set created. batch_id r = ?b"
    unfolding post by blast
  have "generated_batch_id ?b"
    by (simp add: new_batch_id_generated) (simp add: generated_batch_id_def)
  with b have "list_all (\<lambda>r. generated_batch_id (batch_id r)) created"
    by (simp add: list_all_iff)
  with assms c show ?thesis by (simp add: stored_batch_ids_generated_def)
qed

lemma handler_keeps_generated:
  assumes "stored_batch_ids_generated d"
  shows "stored_batch_ids_generated (snd (handler env req d))"
proof (cases "target req")
  case (POST_orders b)
  with post_orders_keeps_generated [OF assms] show ?thesis by (simp add: handler_def)
next
  case (PATCH_order_status rid s)
  with patch_keeps_generated [OF assms] show ?thesis by (simp add: handler_def)
next
  case (DELETE_order rid)
  with delete_keeps_generated [OF assms] show ?thesis by (simp add: handler_def)
next
  case GET_customers
  with assms show ?thesis
    by (simp add: handler_def get_customers_def stored_batch_ids_generated_def
        customers_select_all_def split: option.splits)
next
  case (POST_customers b)
  with assms show ?thesis
    by (simp add: handler_def post_customers_def stored_batch_ids_generated_def
        customers_select_existing_def customers_insert_def
        split: option.splits list.splits)
next
  case (DELETE_customer rid)
  with assms show ?thesis
    by (simp add: handler_def delete_customer_def stored_batch_ids_generated_def
        customers_delete_def split: option.splits route_id.splits)
next
  case GET_orders
  with assms show ?thesis
    by (simp add: handler_def get_orders_def stored_batch_ids_generated_def
        orders_select_all_def split: option.splits)
next
  case (GET_order rid)
  with assms show ?thesis
    by (simp add: handler_def get_order_def stored_batch_ids_generated_def
        orders_select_one_def orders_select_batch_def
        split: option.splits sum.splits prod.splits)
next
  case GET_stats
  with assms show ?thesis
    by (simp add: handler_def get_stats_def stored_batch_ids_generated_def
        orders_count_def customers_count_def orders_select_prices_def
        split: option.splits)
next
  case GET_billing_trends
  with assms show ?thesis
    by (simp add: handler_def get_billing_trends_def stored_batch_ids_generated_def
        split_beta trend_months_orders del: trend_months.simps split: option.splits)
next
  case GET_billing_distribution
  with assms show ?thesis
    by (simp add: handler_def get_billing_distribution_def stored_batch_ids_generated_def
        orders_count_def split: option.splits)
qed

lemma empty_db_generated: "stored_batch_ids_generated empty_db"
  by (simp add: stored_batch_ids_generated_def empty_db_def)

text \<open>A generated batch id is no name inherited from \<open>Object.prototype\<close>.\<close>

lemma generated_not_inherited:
  "generated_batch_id (Some k) \<Longrightarrow> k \<notin> set object_prototype_keys"
  by (auto simp: generated_batch_id_def object_prototype_keys_def)

lemma batch_id_with_customer [simp]: "batch_id (with_customer d r) = batch_id r"
  by (simp add: with_customer_def record_defs)

lemma set_js_sort [simp]: "set (js_sort lt xs) = set xs"
proof -
  have "set (js_insert lt x ys) = insert x (set ys)" for x ys
    by (induction ys) auto
  then show ?thesis by (induction xs) (simp_all add: js_sort_def)
qed

lemma batch_ids_subset:
  "set (batch_ids os) \<subseteq> {k. \<exists>r \<in> set os. batch_id r = Some k}"
  by (induction os) (auto simp: batch_ids_def truthy_value_Some_iff split: option.splits)

text \<open>
  What the view receives: the orders \<open>GET /api/orders\<close> lists from a database whose
  batch ids are null or generated have no batch id that is an inherited name.
\<close>

lemma listed_orders_no_inherited_key:
  assumes "stored_batch_ids_generated d"
  shows "no_inherited_key (listed_orders (fst (get_orders env a d)))"
proof (cases "getAuthClient env a")
  case None
  then show ?thesis
    by (simp add: get_orders_def listed_orders_def unauthorized_def status_json_def
        no_inherited_key_def batch_ids_def)
next
  case (Some user)
  let ?os = "map (with_customer d) (js_sort (\<lambda>y x. \<not> str_le (order_date y) (order_date x)) (orders d))"
  have l: "listed_orders (fst (get_orders env a d)) = ?os"
    by (simp add: get_orders_def Some orders_select_all_def listed_orders_def json_def)
  have "k \<notin> set object_prototype_keys" if "k \<in> set (batch_ids ?os)" for k
  proof -
    from that batch_ids_subset obtain r where "r \<in> set ?os" "batch_id r = Some k" by blast
    then obtain r' where "r' \<in> set (orders d)" "batch_id r' = Some k" by auto
    with assms have "generated_batch_id (Some k)"
      by (auto simp: stored_batch_ids_generated_def list_all_iff)
    then show ?thesis by (rule generated_not_inherited)
  qed
  then show ?thesis unfolding l no_inherited_key_def by blast
qed

section \<open>The rows of the grouped view\<close>

lemma mset_js_insert [simp]: "mset (js_insert lt x xs) = add_mset x (mset xs)"
  by (induction xs) simp_all

lemma mset_js_sort [simp]: "mset (js_sort lt xs) = mset xs"
  by (induction xs) (simp_all add: js_sort_def)

lemma mset_entries [simp]: "mset (entries g) = mset g"
  by (simp add: entries_def)

text \<open>With an addition that does not round, the reduction is the sum of the prices.\<close>

lemma reduce_total_sum: "reduce_total (+) items = sum_list (map total_price items)"
proof -
  have "foldl (\<lambda>sum item. sum + total_price item) a xs = a + sum_list (map total_price xs)"
    for a and xs :: "Order list"
    by (induction xs arbitrary: a) (simp_all add: add.assoc)
  from this [of 0 items] show ?thesis by (simp add: reduce_total_def)
qed

lemma batch_ids_Cons:
  "batch_ids (x # xs) = (case truthy_value (batch_id x) of None \<Rightarrow> batch_ids xs | Some k \<Rightarrow> k # batch_ids xs)"
  by (simp add: batch_ids_def split: option.splits)

lemma batch_ids_Nil [simp]: "batch_ids [] = []"
  by (simp add: batch_ids_def)

lemma members_Nil [simp]: "members [] k = []"
  by (simp add: members_def)

lemma members_Cons:
  "members (x # xs) k = (if truthy_value (batch_id x) = Some k then x # members xs k else members xs k)"
  by (simp add: members_def)

lemma members_empty_iff: "members os k = [] \<longleftrightarrow> k \<notin> set (batch_ids os)"
  by (induction os) (auto simp: batch_ids_Cons members_Cons split: option.splits)

text \<open>
  The loop over a collection with no inherited key, from any state: it does not throw,
  the orders without a batch id are appended to \<open>singleOrders\<close> in order, and \<open>groups\<close>
  holds under every batch id the members of that batch.
\<close>

lemma forEach_orders_result:
  assumes "no_inherited_key os"
  shows "\<exists>g'. forEach_orders (g, s) os = Inr (g', s @ [r \<leftarrow> os. \<not> truthy (batch_id r)])
           \<and> map_of g' = grouped g os
           \<and> (distinct (map fst g) \<longrightarrow> distinct (map fst g'))
           \<and> set (map fst g') = set (map fst g) \<union> set (batch_ids os)"
  using assms
proof (induction os arbitrary: g s)
  case Nil
  show ?case by (simp add: grouped_def fun_eq_iff)
next
  case (Cons x xs)
  show ?case
  proof (cases "truthy_value (batch_id x)")
    case None
    then have f: "\<not> truthy (batch_id x)" by (simp add: truthy_value_None_iff)
    from Cons.prems None have ok: "no_inherited_key xs"
      by (simp add: no_inherited_key_def batch_ids_Cons)
    from Cons.IH [OF ok, of g "s @ [x]"] obtain g'
      where r: "forEach_orders (g, s @ [x]) xs = Inr (g', (s @ [x]) @ [r \<leftarrow> xs. \<not> truthy (batch_id r)])"
        and m: "map_of g' = grouped g xs"
        and d: "distinct (map fst g) \<longrightarrow> distinct (map fst g')"
        and k: "set (map fst g') = set (map fst g) \<union> set (batch_ids xs)"
      by blast
    have "grouped g (x # xs) = grouped g xs"
      by (simp add: grouped_def fun_eq_iff members_Cons None)
    with r m d k show ?thesis
      by (simp add: forEach_step_def None f batch_ids_Cons)
  next
    case (Some k)
    from Cons.prems Some have ok: "no_inherited_key xs" and nk: "k \<notin> set object_prototype_keys"
      by (auto simp: no_inherited_key_def batch_ids_Cons)
    have t: "truthy (batch_id x)" using Some by (auto simp: truthy_iff)
    let ?old = "case map_of g k of None \<Rightarrow> [] | Some items \<Rightarrow> items"
    let ?g1 = "AList.update k (?old @ [x]) g"
    have step: "forEach_step (g, s) x = Inr (?g1, s)"
      by (simp add: forEach_step_def Some nk split: option.splits)
    from Cons.IH [OF ok, of ?g1 s] obtain g'
      where r: "forEach_orders (?g1, s) xs = Inr (g', s @ [r \<leftarrow> xs. \<not> truthy (batch_id r)])"
        and m: "map_of g' = grouped ?g1 xs"
        and d: "distinct (map fst ?g1) \<longrightarrow> distinct (map fst g')"
        and ks: "set (map fst g') = set (map fst ?g1) \<union> set (batch_ids xs)"
      by blast
    have m1: "map_of ?g1 = (map_of g)(k \<mapsto> ?old @ [x])"
      by (rule update_conv')
    have "grouped ?g1 xs j = grouped g (x # xs) j" for j
      by (simp add: grouped_def m1 members_Cons Some split: option.splits)
    then have m': "map_of g' = grouped g (x # xs)" using m by (simp add: fun_eq_iff)
    have d': "distinct (map fst g) \<longrightarrow> distinct (map fst g')"
      using d by (simp add: distinct_update)
    have ks': "set (map fst g') = set (map fst g) \<union> set (batch_ids (x # xs))"
      using ks by (auto simp: batch_ids_Cons Some AList.dom_update)
    from r m' d' ks' show ?thesis
      by (simp add: step t)
  qed
qed

lemma process_groups_ok:
  "\<forall>e \<in> set g. snd e \<noteq> [] \<Longrightarrow>
   \<exists>rows. process_groups add g = Inr rows \<and> map Inr rows = map (process_group add) g"
proof (induction g)
  case Nil
  show ?case by simp
next
  case (Cons e g)
  then obtain rows
    where r: "process_groups add g = Inr rows" "map Inr rows = map (process_group add) g"
    by auto
  from Cons.prems obtain k first rest where e: "e = (k, first # rest)"
    by (cases e, cases "snd e") auto
  show ?case by (simp add: r e process_group_def)
qed

lemma length_js_sort [simp]: "length (js_sort lt xs) = length xs"
  by (metis mset_js_sort size_mset)

lemma length_entries [simp]: "length (entries g) = length g"
  by (metis mset_entries size_mset)

lemma set_entries [simp]: "set (entries g) = set g"
  by (metis mset_entries set_mset_mset)

lemma process_group_row:
  assumes "process_group add (k, items) = Inr row"
  shows "is_group row = Some True \<and> service_type row = ''DIVERSOS''
       \<and> batch_items row = Some items
       \<and> total_price row = foldl (\<lambda>sum item. add sum (total_price item)) 0 items"
  using assms
  by (cases items) (auto simp: process_group_def record_defs reduce_total_def)

lemma single_row_not_group [simp]: "is_group (single_row r) = None"
  by (simp add: single_row_def record_defs)

text \<open>
  C1. For every collection of orders in which no batch id is a name inherited from
  \<open>Object.prototype\<close> (the collections the view receives: \<open>listed_orders_no_inherited_key\<close>
  with \<open>handler_keeps_generated\<close>), the view has rows, as many as there are orders with no
  batch id (null or empty, the test of the code) plus distinct batch ids. The rows that
  are no group are the orders with no batch id, one each; there is one group row for
  each batch id; and every group row has the service type \<open>DIVERSOS\<close>, the members of
  one batch as its items, and as its price the prices of those members added to 0 from
  left to right with the addition of JavaScript numbers \<open>add\<close>: their sum.
\<close>

theorem groupedOrders_rows:
  assumes ok: "no_inherited_key os"
  shows "\<exists>rows. groupedOrders add getTime os = Inr rows
    \<and> length rows = length [r \<leftarrow> os. \<not> truthy (batch_id r)] + card (set (batch_ids os))
    \<and> mset [row \<leftarrow> rows. is_group row \<noteq> Some True]
        = mset (map single_row [r \<leftarrow> os. \<not> truthy (batch_id r)])
    \<and> length [row \<leftarrow> rows. is_group row = Some True] = card (set (batch_ids os))
    \<and> (\<forall>row \<in> set rows. is_group row = Some True \<longrightarrow>
          service_type row = ''DIVERSOS''
          \<and> (\<exists>k \<in> set (batch_ids os). batch_items row = Some (members os k)
                \<and> total_price row
                    = foldl (\<lambda>sum item. add sum (total_price item)) 0 (members os k)))"
proof -
  let ?singles = "[r \<leftarrow> os. \<not> truthy (batch_id r)]"
  from forEach_orders_result [OF ok, of "[]" "[]"] obtain g
    where loop: "forEach_orders ([], []) os = Inr (g, ?singles)"
      and m: "map_of g = grouped [] os"
      and d: "distinct (map fst g)"
      and keys: "set (map fst g) = set (batch_ids os)"
    by auto
  have entry: "items = members os k \<and> items \<noteq> [] \<and> k \<in> set (batch_ids os)"
    if "(k, items) \<in> set g" for k items
  proof -
    from that d have "map_of g k = Some items" by simp
    with m have "grouped [] os k = Some items" by simp
    then have "items = members os k \<and> items \<noteq> []"
      by (auto simp: grouped_def split: if_splits)
    moreover from that keys have "k \<in> set (batch_ids os)" by force
    ultimately show ?thesis by blast
  qed
  then have "\<forall>e \<in> set (entries g). snd e \<noteq> []" by auto
  from process_groups_ok [OF this] obtain groupRows
    where pg: "process_groups add (entries g) = Inr groupRows"
      and each: "map Inr groupRows = map (process_group add) (entries g)"
    by blast
  let ?rows = "js_sort (\<lambda>y x. cmp_negative (order_cmp getTime y x))
                 (map single_row ?singles @ groupRows)"
  have res: "groupedOrders add getTime os = Inr ?rows"
    by (simp add: groupedOrders_def loop pg)
  have isg: "is_group row = Some True" if "row \<in> set groupRows" for row
  proof -
    from that have "Inr row \<in> set (map (process_group add) (entries g))"
      using each by (metis image_eqI list.set_map)
    then obtain k items where "process_group add (k, items) = Inr row" by auto
    from process_group_row [OF this] show ?thesis by simp
  qed
  have lg: "length groupRows = card (set (batch_ids os))"
  proof -
    have "length groupRows = length (entries g)" using each by (metis length_map)
    also have "\<dots> = card (set (batch_ids os))"
      using d keys by (metis distinct_card length_entries length_map)
    finally show ?thesis .
  qed
  have len: "length ?rows = length ?singles + card (set (batch_ids os))"
    using lg by simp
  have fs: "[row \<leftarrow> map single_row ?singles. is_group row = Some True] = []"
    by (simp add: filter_empty_conv)
  have fg: "[row \<leftarrow> groupRows. is_group row = Some True] = groupRows"
    using isg by (simp add: filter_id_conv)
  have groups_of: "mset [row \<leftarrow> ?rows. is_group row = Some True] = mset groupRows"
  proof -
    have "mset [row \<leftarrow> ?rows. is_group row = Some True]
        = mset [row \<leftarrow> map single_row ?singles @ groupRows. is_group row = Some True]"
      by (simp only: mset_filter mset_js_sort)
    also have "\<dots> = mset groupRows"
      by (simp only: filter_append fs fg append_Nil)
    finally show ?thesis .
  qed
  have ns: "[row \<leftarrow> map single_row ?singles. is_group row \<noteq> Some True]
      = map single_row ?singles"
    by (simp add: filter_id_conv)
  have ng: "[row \<leftarrow> groupRows. is_group row \<noteq> Some True] = []"
    using isg by (simp add: filter_empty_conv)
  have singles_of: "mset [row \<leftarrow> ?rows. is_group row \<noteq> Some True]
      = mset (map single_row ?singles)"
  proof -
    have "mset [row \<leftarrow> ?rows. is_group row \<noteq> Some True]
        = mset [row \<leftarrow> map single_row ?singles @ groupRows. is_group row \<noteq> Some True]"
      by (simp only: mset_filter mset_js_sort)
    also have "\<dots> = mset (map single_row ?singles)"
      by (simp only: filter_append ns ng append_Nil2)
    finally show ?thesis .
  qed
  have count_groups: "length [row \<leftarrow> ?rows. is_group row = Some True] = card (set (batch_ids os))"
    using groups_of lg by (metis size_mset)
  have grp: "service_type row = ''DIVERSOS''
          \<and> (\<exists>k \<in> set (batch_ids os). batch_items row = Some (members os k)
                \<and> total_price row
                    = foldl (\<lambda>sum item. add sum (total_price item)) 0 (members os k))"
    if mem: "row \<in> set ?rows" and g1: "is_group row = Some True" for row
  proof -
    from mem have "row \<in> set (map single_row ?singles) \<or> row \<in> set groupRows" by auto
    then have "row \<in> set groupRows" using g1 by auto
    then have "Inr row \<in> set (map (process_group add) (entries g))"
      using each by (metis image_eqI list.set_map)
    then obtain k items
      where e: "(k, items) \<in> set g" and p: "process_group add (k, items) = Inr row"
      by auto
    from entry [OF e] process_group_row [OF p] show ?thesis by auto
  qed
  from res len singles_of count_groups grp show ?thesis by blast
qed

text \<open>The example of the spec, from the request to the view.\<close>

lemma insert_orders_customers [simp]:
  "customers (snd (insert_orders env user b ids ps d)) = customers d"
  by (induction ps arbitrary: ids d)
     (simp_all add: orders_insert_def insert_images_def order_images_insert_def
        split: option.splits list.splits)

lemma after_two_items_rows:
  "orders after_two_items =
     [new_order_row example_env (order_fields.truncate (example_payload 2 10))
        (Some ''batch_1710504000000_k3j9x0q1z'') ''user-1'' 1,
      new_order_row example_env (order_fields.truncate (example_payload 1 5))
        (Some ''batch_1710504000000_k3j9x0q1z'') ''user-1'' 2]"
  "customers after_two_items = []"
proof -
  have acc: "\<forall>x \<in> set [example_payload 2 10, example_payload 1 5].
      db_refuses_order example_env (order_fields.truncate x) = None"
    by (simp add: example_payload_accepted)
  have e: "orders empty_db = []" "next_order_id empty_db = 1" "customers empty_db = []"
    by (simp_all add: empty_db_def)
  show "orders after_two_items =
     [new_order_row example_env (order_fields.truncate (example_payload 2 10))
        (Some ''batch_1710504000000_k3j9x0q1z'') ''user-1'' 1,
      new_order_row example_env (order_fields.truncate (example_payload 1 5))
        (Some ''batch_1710504000000_k3j9x0q1z'') ''user-1'' 2]"
    by (simp add: after_two_items_def post_orders_def example_auth ordersData_def
        insert_orders_accepted [OF acc] e example_batch_id del: insert_orders.simps)
  show "customers after_two_items = []"
    by (simp add: after_two_items_def post_orders_def example_auth e del: insert_orders.simps)
qed

lemma two_items_listed_rows:
  "two_items_listed =
     [order_row.extend
        (new_order_row example_env (order_fields.truncate (example_payload 2 10))
           (Some ''batch_1710504000000_k3j9x0q1z'') ''user-1'' 1) (Order.fields None None),
      order_row.extend
        (new_order_row example_env (order_fields.truncate (example_payload 1 5))
           (Some ''batch_1710504000000_k3j9x0q1z'') ''user-1'' 2) (Order.fields None None)]"
proof -
  have d: "order_date (new_order_row example_env (order_fields.truncate (example_payload q p)) b u i)
      = ''2024-03-01''" for q p b u i
    by (simp add: new_order_row_def example_payload_def example_fields_def record_defs)
  have le: "str_le ''2024-03-01'' ''2024-03-01''" by simp
  show ?thesis
    by (simp add: two_items_listed_def listed_orders_def get_orders_def example_auth
        orders_select_all_def json_def after_two_items_rows js_sort_def d le
        with_customer_def embedded_customer_def)
qed

lemma two_items_view:
  "map_sum id (map total_price) (groupedOrders (+) example_getTime two_items_listed) = Inr [25]"
  "map_sum id (map service_type) (groupedOrders (+) example_getTime two_items_listed)
     = Inr [''DIVERSOS'']"
  by (simp_all add: two_items_listed_rows groupedOrders_def forEach_step_def truthy_value_def
        object_prototype_keys_def entries_def array_index_def is_digit_def process_group_def
        reduce_total_def js_sort_def new_order_row_def example_payload_def example_fields_def
        record_defs)


theorem groupedOrders_rows_witness:
  "stored_batch_ids_generated after_two_items
   \<and> no_inherited_key two_items_listed
   \<and> map total_price two_items_listed = [20, 5]
   \<and> map batch_id two_items_listed
       = [Some ''batch_1710504000000_k3j9x0q1z'', Some ''batch_1710504000000_k3j9x0q1z'']
   \<and> map_sum id length (groupedOrders (+) example_getTime two_items_listed) = Inr 1
   \<and> map_sum id (map total_price) (groupedOrders (+) example_getTime two_items_listed)
       = Inr [25]
   \<and> map_sum id (map service_type) (groupedOrders (+) example_getTime two_items_listed)
       = Inr [''DIVERSOS'']"
proof -
  have inv: "stored_batch_ids_generated after_two_items"
    unfolding after_two_items_def by (rule post_orders_keeps_generated [OF empty_db_generated])
  have ok: "no_inherited_key two_items_listed"
    unfolding two_items_listed_def by (rule listed_orders_no_inherited_key [OF inv])
  have prices: "map total_price two_items_listed = [20, 5]"
    and ids: "map batch_id two_items_listed
       = [Some ''batch_1710504000000_k3j9x0q1z'', Some ''batch_1710504000000_k3j9x0q1z'']"
    by (simp_all add: two_items_listed_rows new_order_row_def example_payload_def
          example_fields_def record_defs)
  have singles: "[r \<leftarrow> two_items_listed. \<not> truthy (batch_id r)] = []"
    and batches: "batch_ids two_items_listed
       = [''batch_1710504000000_k3j9x0q1z'', ''batch_1710504000000_k3j9x0q1z'']"
    by (simp_all add: two_items_listed_rows new_order_row_def record_defs truthy_def
          batch_ids_def truthy_value_def)
  from groupedOrders_rows [OF ok, of "(+)" example_getTime] obtain rows
    where r: "groupedOrders (+) example_getTime two_items_listed = Inr rows"
      and len: "length rows = length [r \<leftarrow> two_items_listed. \<not> truthy (batch_id r)]
                  + card (set (batch_ids two_items_listed))"
    by blast
  have count: "map_sum id length (groupedOrders (+) example_getTime two_items_listed) = Inr 1"
    by (simp add: r len singles batches)
  from inv ok prices ids count two_items_view show ?thesis by (intro conjI)
qed

text \<open>
  A row written to the table by other means than the handlers can carry any text as its
  batch id. On a name every object inherits, \<open>groups[order.batch_id]\<close> reads the
  inherited member, no array is stored and \<open>.push\<close> is not a function: the loop throws.
\<close>

lemma groupedOrders_inherited_key:
  "groupedOrders add getTime [example_order 1 (Some ''constructor'') 20] = Inl TypeError"
  by (simp add: groupedOrders_def forEach_step_def truthy_value_def object_prototype_keys_def
        example_order_def example_row_def new_order_row_def record_defs)

end
